theory Spec2Isabelle
  imports Main
begin

section \<open>Data model of \<open>SILBasicBlock.h\<close>\<close>

text \<open>
  Objects live in arenas and a pointer is an index into the arena of its type: a
  \<open>SILBasicBlock*\<close> is a position in \<open>Blocks\<close>, a \<open>SILInstruction*\<close> a position in
  \<open>Insts\<close>, a \<open>SILFunction*\<close> a position in \<open>Functions\<close>. A null pointer is \<open>None\<close>.
  An index beyond the arena is a pointer to no object; reading through it is undefined
  behaviour in C++ and an error value here.
\<close>

type_synonym block_id = nat
type_synonym inst_id = nat
type_synonym func_id = nat
type_synonym arg_id = nat

text \<open>
  A \<open>SILSuccessor\<close> is stored inside the terminator that owns it, so a
  \<open>SILSuccessor*\<close> is the owning instruction together with the slot number in that
  terminator's successor array.
\<close>

type_synonym edge_ptr = "inst_id \<times> nat"

text \<open>
  Modelled from the spec: the class \<open>SILSuccessor\<close> is declared outside this header.
  An edge holds its target block; the links that thread it into the target's predecessor
  list are kept as the list itself, in the field \<open>PredList\<close> of the target.
\<close>

record SILSuccessor =
  SuccessorBlock :: "block_id option"

text \<open>
  Modelled from the spec: \<open>SILInstruction\<close> and \<open>TermInst\<close> are declared in
  \<open>SILInstruction.h\<close>. An instruction is a node of one block's instruction list; exactly
  one subtype, the terminator, owns zero or more successor edges.
\<close>

datatype InstKind = NonTerminator | TermInst "SILSuccessor list"

record SILInstruction =
  ParentBB :: "block_id option"
  Kind :: InstKind

text \<open>
  The four data members of \<open>class SILBasicBlock\<close>. \<open>PredList\<close> is the head of the
  list of all terminator operands branching to this block: the model keeps the list the
  head stands for, so the null head is \<open>[]\<close>. \<open>InstList\<close> holds the instructions by
  identity, in program order.
\<close>

record SILBasicBlock =
  Parent :: func_id
  PredList :: "edge_ptr list"
  BBArgList :: "arg_id list"
  InstList :: "inst_id list"

text \<open>
  The heap: every function's block sequence (the \<open>iplist\<close> of blocks it owns), and the
  arenas of blocks and instructions.
\<close>

record SILModule =
  Functions :: "block_id list list"
  Blocks :: "SILBasicBlock list"
  Insts :: "SILInstruction list"

text \<open>
  The model is the build with assertions enabled. A failed \<open>assert\<close> (also the one
  inside \<open>llvm::cast\<close>) is \<open>AssertionFailure\<close>; an access the code makes without any
  check, outside the bounds of its container or through a pointer to no object, is
  \<open>UndefinedBehavior\<close>.
\<close>

datatype error = AssertionFailure | UndefinedBehavior

definition load :: "'a list \<Rightarrow> nat \<Rightarrow> 'a option" where
  "load arena p = (if p < length arena then Some (arena ! p) else None)"

definition bind_err :: "error + 'a \<Rightarrow> ('a \<Rightarrow> error + 'b) \<Rightarrow> error + 'b" where
  "bind_err r f = (case r of Inl e \<Rightarrow> Inl e | Inr v \<Rightarrow> f v)"

section \<open>Instruction list inspection\<close>

definition getParent :: "SILBasicBlock \<Rightarrow> func_id" where
  "getParent b = Parent b"

definition empty_bb :: "SILBasicBlock \<Rightarrow> bool" where
  "empty_bb b = (InstList b = [])"

text \<open>
  \<open>getTerminator\<close>: the assertion on the empty list, then \<open>cast<TermInst>\<close> of the last
  instruction, which asserts \<open>isa<TermInst>\<close>.
\<close>

definition getTerminator :: "SILModule \<Rightarrow> SILBasicBlock \<Rightarrow> error + inst_id" where
  "getTerminator M b =
     (if InstList b = [] then Inl AssertionFailure
      else (case load (Insts M) (last (InstList b)) of
              None \<Rightarrow> Inl UndefinedBehavior
            | Some I \<Rightarrow> (case Kind I of
                          TermInst succs \<Rightarrow> Inr (last (InstList b))
                        | NonTerminator \<Rightarrow> Inl AssertionFailure)))"

section \<open>Argument list inspection and manipulation\<close>

definition bbarg_empty :: "SILBasicBlock \<Rightarrow> bool" where
  "bbarg_empty b = (BBArgList b = [])"

definition bbarg_size :: "SILBasicBlock \<Rightarrow> nat" where
  "bbarg_size b = length (BBArgList b)"

definition getBBArgs :: "SILBasicBlock \<Rightarrow> arg_id list" where
  "getBBArgs b = BBArgList b"

text \<open>
  \<open>getNumBBArg\<close> returns the \<open>size_t\<close> count as \<open>unsigned\<close>: the count modulo
  \<open>2 ^ 32\<close>. The index parameters, \<open>unsigned\<close> in \<open>getBBArg\<close> and \<open>int\<close> in
  \<open>eraseArgument\<close>, are a natural number and an integer here; every index the C++
  types can pass is one of them.
\<close>

definition getNumBBArg :: "SILBasicBlock \<Rightarrow> nat" where
  "getNumBBArg b = length (BBArgList b) mod 2 ^ 32"

text \<open>
  \<open>getBBArg\<close> is \<open>BBArgList[i]\<close> on a \<open>std::vector\<close>: the header checks nothing, so an
  index past the end is undefined behaviour.
\<close>

definition getBBArg :: "SILBasicBlock \<Rightarrow> nat \<Rightarrow> error + arg_id" where
  "getBBArg b i =
     (if i < length (BBArgList b) then Inr (BBArgList b ! i) else Inl UndefinedBehavior)"

definition dropAllArgs :: "SILBasicBlock \<Rightarrow> SILBasicBlock" where
  "dropAllArgs b = b\<lparr>BBArgList := []\<rparr>"

text \<open>
  \<open>std::vector::erase\<close> at one position: the elements behind the position each move one
  place towards the front and the vector shrinks by one.
\<close>

fun vector_erase :: "'a list \<Rightarrow> nat \<Rightarrow> 'a list" where
  "vector_erase [] n = []"
| "vector_erase (x # xs) 0 = xs"
| "vector_erase (x # xs) (Suc n) = x # vector_erase xs n"

text \<open>
  \<open>eraseArgument(int idx)\<close> is \<open>BBArgList.erase(BBArgList.begin() + idx)\<close>, again with no
  check: a negative index and an index past the last argument are undefined behaviour.
\<close>

definition eraseArgument :: "SILBasicBlock \<Rightarrow> int \<Rightarrow> error + SILBasicBlock" where
  "eraseArgument b idx =
     (if 0 \<le> idx \<and> nat idx < length (BBArgList b)
      then Inr (b\<lparr>BBArgList := vector_erase (BBArgList b) (nat idx)\<rparr>)
      else Inl UndefinedBehavior)"

definition addArgument :: "SILBasicBlock \<Rightarrow> arg_id \<Rightarrow> SILBasicBlock" where
  "addArgument b Arg = b\<lparr>BBArgList := BBArgList b @ [Arg]\<rparr>"

section \<open>Successors\<close>

text \<open>
  Modelled from the spec: \<open>TermInst::getSuccessors\<close> is declared in \<open>SILInstruction.h\<close>;
  it is the successor array the terminator owns.
\<close>

definition getSuccessors :: "SILModule \<Rightarrow> inst_id \<Rightarrow> error + SILSuccessor list" where
  "getSuccessors M t =
     (case load (Insts M) t of
        None \<Rightarrow> Inl UndefinedBehavior
      | Some I \<Rightarrow> (case Kind I of
                    TermInst succs \<Rightarrow> Inr succs
                  | NonTerminator \<Rightarrow> Inl UndefinedBehavior))"

definition getSuccs :: "SILModule \<Rightarrow> SILBasicBlock \<Rightarrow> error + SILSuccessor list" where
  "getSuccs M b = bind_err (getTerminator M b) (getSuccessors M)"

definition succ_empty :: "SILModule \<Rightarrow> SILBasicBlock \<Rightarrow> error + bool" where
  "succ_empty M b = bind_err (getSuccs M b) (\<lambda>succs. Inr (succs = []))"

text \<open>
  An iterator into the successor array is the part of the array from its position on;
  the end iterator is \<open>[]\<close>, \<open>std::next\<close> is \<open>tl\<close> and \<open>*it\<close> is \<open>hd\<close>.
\<close>

definition succ_begin :: "SILModule \<Rightarrow> SILBasicBlock \<Rightarrow> error + SILSuccessor list" where
  "succ_begin M b = bind_err (getSuccs M b) (\<lambda>succs. Inr succs)"

definition succ_end :: "SILModule \<Rightarrow> SILBasicBlock \<Rightarrow> error + SILSuccessor list" where
  "succ_end M b = bind_err (getSuccs M b) (\<lambda>succs. Inr [])"

text \<open>
  \<open>getSingleSuccessor\<close>, call by call; the \<open>SILSuccessor\<close> it reads converts to the
  block pointer it holds.
\<close>

definition getSingleSuccessor :: "SILModule \<Rightarrow> SILBasicBlock \<Rightarrow> error + block_id option" where
  "getSingleSuccessor M b =
     bind_err (succ_empty M b) (\<lambda>e.
       if e then Inr None
       else bind_err (succ_begin M b) (\<lambda>bg.
            bind_err (succ_end M b) (\<lambda>en.
              if tl bg \<noteq> en then Inr None
              else bind_err (succ_begin M b) (\<lambda>it. Inr (SuccessorBlock (hd it))))))"

section \<open>Predecessors\<close>

text \<open>
  A \<open>SILSuccessorIterator\<close> stands at an edge of the predecessor list and steps to the
  next one: it is the part of the list from its position on, and the default-constructed
  end iterator is \<open>[]\<close>.
\<close>

definition pred_empty :: "SILBasicBlock \<Rightarrow> bool" where
  "pred_empty b = (PredList b = [])"

definition pred_begin :: "SILBasicBlock \<Rightarrow> edge_ptr list" where
  "pred_begin b = PredList b"

definition pred_end :: "SILBasicBlock \<Rightarrow> edge_ptr list" where
  "pred_end b = []"

definition getPreds :: "SILBasicBlock \<Rightarrow> edge_ptr list \<times> edge_ptr list" where
  "getPreds b = (pred_begin b, pred_end b)"

text \<open>
  Modelled from the spec: dereferencing a \<open>SILSuccessorIterator\<close> is defined with the
  iterator, outside this header. The predecessor an edge stands for is the block holding
  the terminator that owns the edge; this is null while that terminator is in no block.
\<close>

definition pred_deref :: "SILModule \<Rightarrow> edge_ptr list \<Rightarrow> error + block_id option" where
  "pred_deref M it =
     (case it of
        [] \<Rightarrow> Inl UndefinedBehavior
      | e # rest \<Rightarrow> (case load (Insts M) (fst e) of
                      None \<Rightarrow> Inl UndefinedBehavior
                    | Some I \<Rightarrow> Inr (ParentBB I)))"

definition getSinglePredecessor :: "SILModule \<Rightarrow> SILBasicBlock \<Rightarrow> error + block_id option" where
  "getSinglePredecessor M b =
     (if pred_empty b \<or> tl (pred_begin b) \<noteq> pred_end b then Inr None
      else pred_deref M (pred_begin b))"

section \<open>Well-formed blocks\<close>

definition isa_TermInst :: "SILModule \<Rightarrow> inst_id \<Rightarrow> bool" where
  "isa_TermInst M i =
     (case load (Insts M) i of
        None \<Rightarrow> False
      | Some I \<Rightarrow> (case Kind I of TermInst succs \<Rightarrow> True | NonTerminator \<Rightarrow> False))"

definition isa_NonTerminator :: "SILModule \<Rightarrow> inst_id \<Rightarrow> bool" where
  "isa_NonTerminator M i =
     (case load (Insts M) i of
        None \<Rightarrow> False
      | Some I \<Rightarrow> (case Kind I of TermInst succs \<Rightarrow> False | NonTerminator \<Rightarrow> True))"

text \<open>
  The precondition of \<open>getTerminator\<close>: the instruction list is not empty and its last
  instruction is a terminator.
\<close>

definition has_terminator :: "SILModule \<Rightarrow> SILBasicBlock \<Rightarrow> bool" where
  "has_terminator M b = (InstList b \<noteq> [] \<and> isa_TermInst M (last (InstList b)))"

text \<open>
  A well-formed block ends in exactly one control-transfer instruction: the last
  instruction is a terminator and every instruction before it is an ordinary one.
\<close>

definition well_formed :: "SILModule \<Rightarrow> SILBasicBlock \<Rightarrow> bool" where
  "well_formed M b =
     (has_terminator M b \<and> list_all (isa_NonTerminator M) (butlast (InstList b)))"

section \<open>The edge registry\<close>

text \<open>
  The target an edge pointer reads, and whether the pointer is a successor slot of a
  terminator at all.
\<close>

definition edge_target :: "SILModule \<Rightarrow> edge_ptr \<Rightarrow> block_id option" where
  "edge_target M e =
     (case load (Insts M) (fst e) of
        None \<Rightarrow> None
      | Some I \<Rightarrow> (case Kind I of
                    NonTerminator \<Rightarrow> None
                  | TermInst succs \<Rightarrow> (case load succs (snd e) of
                                        None \<Rightarrow> None
                                      | Some S \<Rightarrow> SuccessorBlock S)))"

definition is_edge :: "SILModule \<Rightarrow> edge_ptr \<Rightarrow> bool" where
  "is_edge M e =
     (case load (Insts M) (fst e) of
        None \<Rightarrow> False
      | Some I \<Rightarrow> (case Kind I of
                    NonTerminator \<Rightarrow> False
                  | TermInst succs \<Rightarrow> snd e < length succs))"

definition edge_live :: "SILModule \<Rightarrow> edge_ptr \<Rightarrow> bool" where
  "edge_live M e = (fst e < length (Insts M))"

text \<open>The terminator owning the edge is in the instruction list of some block.\<close>

definition edge_attached :: "SILModule \<Rightarrow> edge_ptr \<Rightarrow> bool" where
  "edge_attached M e =
     (case load (Insts M) (fst e) of None \<Rightarrow> False | Some I \<Rightarrow> ParentBB I \<noteq> None)"

definition live_target :: "SILModule \<Rightarrow> block_id option \<Rightarrow> bool" where
  "live_target M BB = (case BB of None \<Rightarrow> True | Some b \<Rightarrow> b < length (Blocks M))"

text \<open>
  Modelled from the spec: \<open>SILSuccessor\<close>'s list maintenance is defined outside this
  header. An edge unlinks from its current target's predecessor list, and links into a
  target's list by prepending itself.
\<close>

definition unlink :: "edge_ptr \<Rightarrow> SILBasicBlock \<Rightarrow> SILBasicBlock" where
  "unlink e b = b\<lparr>PredList := remove1 e (PredList b)\<rparr>"

definition link :: "edge_ptr \<Rightarrow> SILBasicBlock \<Rightarrow> SILBasicBlock" where
  "link e b = b\<lparr>PredList := e # PredList b\<rparr>"

definition unlink_edge :: "SILModule \<Rightarrow> edge_ptr \<Rightarrow> SILModule" where
  "unlink_edge M e =
     (case edge_target M e of
        None \<Rightarrow> M
      | Some ob \<Rightarrow> M\<lparr>Blocks := (Blocks M)[ob := unlink e (Blocks M ! ob)]\<rparr>)"

definition link_edge :: "SILModule \<Rightarrow> edge_ptr \<Rightarrow> block_id option \<Rightarrow> SILModule" where
  "link_edge M e BB =
     (case BB of
        None \<Rightarrow> M
      | Some nb \<Rightarrow> M\<lparr>Blocks := (Blocks M)[nb := link e (Blocks M ! nb)]\<rparr>)"

definition store_target :: "SILInstruction \<Rightarrow> nat \<Rightarrow> block_id option \<Rightarrow> SILInstruction" where
  "store_target I k BB =
     (case Kind I of
        NonTerminator \<Rightarrow> I
      | TermInst succs \<Rightarrow> I\<lparr>Kind := TermInst (succs[k := \<lparr>SuccessorBlock = BB\<rparr>])\<rparr>)"

text \<open>
  Modelled from the spec: retargeting an edge (\<open>SILSuccessor\<close>'s assignment of a block)
  is defined outside this header. On retargeting the edge unlinks from its current
  target's list first, then links into the new target's list and records the new target.
  The edge pointer must be a successor slot and both targets live blocks or null.
\<close>

definition setTarget :: "SILModule \<Rightarrow> edge_ptr \<Rightarrow> block_id option \<Rightarrow> error + SILModule" where
  "setTarget M e BB =
     (if \<not> is_edge M e \<or> \<not> live_target M (edge_target M e) \<or> \<not> live_target M BB
      then Inl UndefinedBehavior
      else let M1 = link_edge (unlink_edge M e) e BB
           in Inr (M1\<lparr>Insts := (Insts M1)[fst e := store_target (Insts M1 ! fst e) (snd e) BB]\<rparr>))"

section \<open>Creating blocks and instructions\<close>

text \<open>
  Modelled from the spec: the constructor \<open>SILBasicBlock(SILFunction *F)\<close> is only
  declared in this header. A block is created attached to its function, empty, at the end
  of the function's block sequence.
\<close>

definition createBlock :: "SILModule \<Rightarrow> func_id \<Rightarrow> error + SILModule \<times> block_id" where
  "createBlock M F =
     (if \<not> F < length (Functions M) then Inl UndefinedBehavior
      else Inr (M\<lparr>Functions := (Functions M)[F := Functions M ! F @ [length (Blocks M)]],
                  Blocks := Blocks M @
                    [\<lparr>Parent = F, PredList = [], BBArgList = [], InstList = []\<rparr>]\<rparr>,
                length (Blocks M)))"

text \<open>
  Modelled from the spec: instruction construction is defined outside this header. Every
  successor edge of a new terminator, on construction, takes its owning terminator and
  its initial target and immediately links itself into that target's predecessor list.
\<close>

fun init_successors ::
  "SILModule \<Rightarrow> inst_id \<Rightarrow> nat \<Rightarrow> block_id option list \<Rightarrow> error + SILModule" where
  "init_successors M i k [] = Inr M"
| "init_successors M i k (t # ts) =
     bind_err (setTarget M (i, k) t) (\<lambda>M'. init_successors M' i (Suc k) ts)"

definition createTermInst ::
  "SILModule \<Rightarrow> block_id option list \<Rightarrow> error + SILModule \<times> inst_id" where
  "createTermInst M targets =
     (let i = length (Insts M);
          slots = map (\<lambda>t. \<lparr>SuccessorBlock = None\<rparr>) targets;
          M1 = M\<lparr>Insts := Insts M @ [\<lparr>ParentBB = None, Kind = TermInst slots\<rparr>]\<rparr>
      in bind_err (init_successors M1 i 0 targets) (\<lambda>M2. Inr (M2, i)))"

definition createInst :: "SILModule \<Rightarrow> SILModule \<times> inst_id" where
  "createInst M =
     (M\<lparr>Insts := Insts M @ [\<lparr>ParentBB = None, Kind = NonTerminator\<rparr>]\<rparr>, length (Insts M))"

text \<open>
  Modelled from the spec: inserting into the instruction list is the intrusive list's
  operation, defined outside this header. The instruction, so far in no block, goes to
  the end of the block's list and the block becomes its parent.
\<close>

definition push_back :: "SILModule \<Rightarrow> block_id \<Rightarrow> inst_id \<Rightarrow> error + SILModule" where
  "push_back M b i =
     (case load (Blocks M) b of
        None \<Rightarrow> Inl UndefinedBehavior
      | Some B \<Rightarrow> (case load (Insts M) i of
                    None \<Rightarrow> Inl UndefinedBehavior
                  | Some I \<Rightarrow>
                      if ParentBB I \<noteq> None then Inl AssertionFailure
                      else Inr (M\<lparr>Blocks := (Blocks M)[b := B\<lparr>InstList := InstList B @ [i]\<rparr>],
                                  Insts := (Insts M)[i := I\<lparr>ParentBB := Some b\<rparr>]\<rparr>)))"

definition appendInst :: "SILModule \<Rightarrow> block_id \<Rightarrow> error + SILModule" where
  "appendInst M b = (case createInst M of (M1, i) \<Rightarrow> push_back M1 b i)"

definition appendTermInst ::
  "SILModule \<Rightarrow> block_id \<Rightarrow> block_id option list \<Rightarrow> error + SILModule" where
  "appendTermInst M b targets =
     bind_err (createTermInst M targets) (\<lambda>(M1, i). push_back M1 b i)"

section \<open>Splitting a block\<close>

fun insert_after :: "'a \<Rightarrow> 'a \<Rightarrow> 'a list \<Rightarrow> 'a list" where
  "insert_after x y [] = []"
| "insert_after x y (z # zs) = (if z = x then z # y # zs else z # insert_after x y zs)"

text \<open>
  Moving instructions into another list leaves the instruction objects where they are and
  makes the receiving block their parent.
\<close>

definition transfer ::
  "inst_id list \<Rightarrow> block_id \<Rightarrow> SILInstruction list \<Rightarrow> SILInstruction list" where
  "transfer moved New insts =
     map (\<lambda>i. if i \<in> set moved then (insts ! i)\<lparr>ParentBB := Some New\<rparr> else insts ! i)
       [0..<length insts]"

text \<open>
  Two modules hold the same instruction objects: as many, each of the kind and with the
  successor array it had.
\<close>

definition same_kinds :: "SILModule \<Rightarrow> SILModule \<Rightarrow> bool" where
  "same_kinds M M' =
     (length (Insts M') = length (Insts M) \<and>
      (\<forall>i. i < length (Insts M) \<longrightarrow> Kind (Insts M' ! i) = Kind (Insts M ! i)))"

text \<open>
  Modelled from the spec: \<open>splitBasicBlock\<close> is only declared in this header. It creates
  a new block, inserted immediately after the original in the function's block sequence,
  and splices all instructions from the position to the end into the new block; the
  instructions before the position stay. The iterator \<open>I\<close> is its distance from
  \<open>begin()\<close>, so \<open>length (InstList B)\<close> is \<open>end()\<close>; a larger number is no iterator
  of this block.
\<close>

definition splitBasicBlock ::
  "SILModule \<Rightarrow> block_id \<Rightarrow> nat \<Rightarrow> error + SILModule \<times> block_id" where
  "splitBasicBlock M this I =
     (case load (Blocks M) this of
        None \<Rightarrow> Inl UndefinedBehavior
      | Some B \<Rightarrow>
          if \<not> I \<le> length (InstList B) then Inl UndefinedBehavior
          else if \<not> Parent B < length (Functions M) then Inl UndefinedBehavior
          else if this \<notin> set (Functions M ! Parent B) then Inl UndefinedBehavior
          else let New = length (Blocks M);
                   moved = drop I (InstList B);
                   NewBB = \<lparr>Parent = Parent B, PredList = [], BBArgList = [], InstList = moved\<rparr>
               in Inr (M\<lparr>Functions :=
                            (Functions M)[Parent B :=
                               insert_after this New (Functions M ! Parent B)],
                          Blocks :=
                            (Blocks M)[this := B\<lparr>InstList := take I (InstList B)\<rparr>] @ [NewBB],
                          Insts := transfer moved New (Insts M)\<rparr>,
                        New))"

text \<open>
  Modelled from the spec: \<open>splitBasicBlockAndBranch\<close> is only declared in this header.
  It splits as \<open>splitBasicBlock\<close> does, then appends an unconditional branch from the
  original block to the new block.
\<close>

definition splitBasicBlockAndBranch ::
  "SILModule \<Rightarrow> block_id \<Rightarrow> nat \<Rightarrow> error + SILModule \<times> block_id" where
  "splitBasicBlockAndBranch M this I =
     bind_err (splitBasicBlock M this I) (\<lambda>(M1, New).
     bind_err (createTermInst M1 [Some New]) (\<lambda>(M2, br).
     bind_err (push_back M2 this br) (\<lambda>M3. Inr (M3, New))))"

section \<open>Reachable modules\<close>

definition empty_module :: "nat \<Rightarrow> SILModule" where
  "empty_module n = \<lparr>Functions = replicate n [], Blocks = [], Insts = []\<rparr>"

definition update_block :: "SILModule \<Rightarrow> block_id \<Rightarrow> SILBasicBlock \<Rightarrow> SILModule" where
  "update_block M b B = M\<lparr>Blocks := (Blocks M)[b := B]\<rparr>"

text \<open>
  The modules a client can build: from a module of empty functions, by creating blocks,
  appending instructions, retargeting edges, splitting blocks and editing argument lists.
\<close>

inductive reachable :: "SILModule \<Rightarrow> bool" where
  r_empty: "reachable (empty_module n)"
| r_createBlock: "reachable M \<Longrightarrow> createBlock M F = Inr (M', b) \<Longrightarrow> reachable M'"
| r_appendInst: "reachable M \<Longrightarrow> appendInst M b = Inr M' \<Longrightarrow> reachable M'"
| r_appendTermInst: "reachable M \<Longrightarrow> appendTermInst M b targets = Inr M' \<Longrightarrow> reachable M'"
| r_setTarget: "reachable M \<Longrightarrow> setTarget M e BB = Inr M' \<Longrightarrow> reachable M'"
| r_split: "reachable M \<Longrightarrow> splitBasicBlock M b I = Inr (M', New) \<Longrightarrow> reachable M'"
| r_splitAndBranch:
    "reachable M \<Longrightarrow> splitBasicBlockAndBranch M b I = Inr (M', New) \<Longrightarrow> reachable M'"
| r_addArgument:
    "reachable M \<Longrightarrow> b < length (Blocks M) \<Longrightarrow>
     reachable (update_block M b (addArgument (Blocks M ! b) Arg))"
| r_eraseArgument:
    "reachable M \<Longrightarrow> b < length (Blocks M) \<Longrightarrow>
     eraseArgument (Blocks M ! b) idx = Inr B' \<Longrightarrow> reachable (update_block M b B')"
| r_dropAllArgs:
    "reachable M \<Longrightarrow> b < length (Blocks M) \<Longrightarrow>
     reachable (update_block M b (dropAllArgs (Blocks M ! b)))"

section \<open>Invariants of the edge registry\<close>

text \<open>
  The predecessor lists and the targets of the edges agree: the predecessor list of a
  block holds, once each, exactly the edges whose target is the block, and every target
  is a live block.
\<close>

definition registry_ok :: "SILModule \<Rightarrow> bool" where
  "registry_ok M =
     ((\<forall>b. b < length (Blocks M) \<longrightarrow>
         distinct (PredList (Blocks M ! b)) \<and>
         (\<forall>e. (e \<in> set (PredList (Blocks M ! b))) = (edge_target M e = Some b))) \<and>
      (\<forall>e b. edge_target M e = Some b \<longrightarrow> b < length (Blocks M)))"

text \<open>
  Every instruction is in a block; \<open>attached_except\<close> leaves out one instruction that
  has been created and not yet inserted.
\<close>

definition all_attached :: "SILModule \<Rightarrow> bool" where
  "all_attached M = (\<forall>i. i < length (Insts M) \<longrightarrow> ParentBB (Insts M ! i) \<noteq> None)"

definition attached_except :: "SILModule \<Rightarrow> inst_id \<Rightarrow> bool" where
  "attached_except M i =
     (\<forall>j. j < length (Insts M) \<and> j \<noteq> i \<longrightarrow> ParentBB (Insts M ! j) \<noteq> None)"

section \<open>An example module\<close>

text \<open>
  One function of three blocks. \<open>B0\<close> holds two ordinary instructions and a branch to
  \<open>B1\<close>; \<open>B1\<close> holds a conditional branch with both arms to \<open>B2\<close>; \<open>B2\<close> is still
  being built and holds no instruction.
\<close>

definition example_B0 :: SILBasicBlock where
  "example_B0 = \<lparr>Parent = 0, PredList = [], BBArgList = [10, 11, 12], InstList = [0, 1, 2]\<rparr>"

definition example_B1 :: SILBasicBlock where
  "example_B1 = \<lparr>Parent = 0, PredList = [(2, 0)], BBArgList = [], InstList = [3]\<rparr>"

definition example_B2 :: SILBasicBlock where
  "example_B2 = \<lparr>Parent = 0, PredList = [(3, 1), (3, 0)], BBArgList = [], InstList = []\<rparr>"

definition example_module :: SILModule where
  "example_module =
     \<lparr>Functions = [[0, 1, 2]],
      Blocks = [example_B0, example_B1, example_B2],
      Insts = [\<lparr>ParentBB = Some 0, Kind = NonTerminator\<rparr>,
               \<lparr>ParentBB = Some 0, Kind = NonTerminator\<rparr>,
               \<lparr>ParentBB = Some 0, Kind = TermInst [\<lparr>SuccessorBlock = Some 1\<rparr>]\<rparr>,
               \<lparr>ParentBB = Some 1,
                 Kind = TermInst [\<lparr>SuccessorBlock = Some 2\<rparr>, \<lparr>SuccessorBlock = Some 2\<rparr>]\<rparr>]\<rparr>"

text \<open>
  The example module after splitting \<open>B0\<close> at its branch: without, and with, the new
  branch from \<open>B0\<close> to the new block 3.
\<close>

definition example_split :: SILModule where
  "example_split =
     \<lparr>Functions = [[0, 3, 1, 2]],
      Blocks = [example_B0\<lparr>InstList := [0, 1]\<rparr>, example_B1, example_B2,
                \<lparr>Parent = 0, PredList = [], BBArgList = [], InstList = [2]\<rparr>],
      Insts = [\<lparr>ParentBB = Some 0, Kind = NonTerminator\<rparr>,
               \<lparr>ParentBB = Some 0, Kind = NonTerminator\<rparr>,
               \<lparr>ParentBB = Some 3, Kind = TermInst [\<lparr>SuccessorBlock = Some 1\<rparr>]\<rparr>,
               \<lparr>ParentBB = Some 1,
                 Kind = TermInst [\<lparr>SuccessorBlock = Some 2\<rparr>, \<lparr>SuccessorBlock = Some 2\<rparr>]\<rparr>]\<rparr>"

definition example_split_branch :: SILModule where
  "example_split_branch =
     \<lparr>Functions = [[0, 3, 1, 2]],
      Blocks = [example_B0\<lparr>InstList := [0, 1, 4]\<rparr>, example_B1, example_B2,
                \<lparr>Parent = 0, PredList = [(4, 0)], BBArgList = [], InstList = [2]\<rparr>],
      Insts = [\<lparr>ParentBB = Some 0, Kind = NonTerminator\<rparr>,
               \<lparr>ParentBB = Some 0, Kind = NonTerminator\<rparr>,
               \<lparr>ParentBB = Some 3, Kind = TermInst [\<lparr>SuccessorBlock = Some 1\<rparr>]\<rparr>,
               \<lparr>ParentBB = Some 1,
                 Kind = TermInst [\<lparr>SuccessorBlock = Some 2\<rparr>, \<lparr>SuccessorBlock = Some 2\<rparr>]\<rparr>,
               \<lparr>ParentBB = Some 0, Kind = TermInst [\<lparr>SuccessorBlock = Some 3\<rparr>]\<rparr>]\<rparr>"

text \<open>
  A second example, built step by step from the empty module: three blocks, the first
  ending in a branch to the second. Retargeting that branch to the third block gives
  \<open>example_cfg_retargeted\<close>.
\<close>

definition blank_block :: SILBasicBlock where
  "blank_block = \<lparr>Parent = 0, PredList = [], BBArgList = [], InstList = []\<rparr>"

definition example_cfg :: SILModule where
  "example_cfg =
     \<lparr>Functions = [[0, 1, 2]],
      Blocks = [blank_block\<lparr>InstList := [0]\<rparr>, blank_block\<lparr>PredList := [(0, 0)]\<rparr>,
                blank_block],
      Insts = [\<lparr>ParentBB = Some 0, Kind = TermInst [\<lparr>SuccessorBlock = Some 1\<rparr>]\<rparr>]\<rparr>"

definition example_cfg_retargeted :: SILModule where
  "example_cfg_retargeted =
     \<lparr>Functions = [[0, 1, 2]],
      Blocks = [blank_block\<lparr>InstList := [0]\<rparr>, blank_block,
                blank_block\<lparr>PredList := [(0, 0)]\<rparr>],
      Insts = [\<lparr>ParentBB = Some 0, Kind = TermInst [\<lparr>SuccessorBlock = Some 2\<rparr>]\<rparr>]\<rparr>"

text \<open>
  A third example: two empty blocks, and the module after a branch to the second block
  has been constructed and not yet inserted into a block.
\<close>

definition example_two_blocks :: SILModule where
  "example_two_blocks =
     \<lparr>Functions = [[0, 1]], Blocks = [blank_block, blank_block], Insts = []\<rparr>"

definition example_detached :: SILModule where
  "example_detached =
     \<lparr>Functions = [[0, 1]],
      Blocks = [blank_block, blank_block\<lparr>PredList := [(0, 0)]\<rparr>],
      Insts = [\<lparr>ParentBB = None, Kind = TermInst [\<lparr>SuccessorBlock = Some 1\<rparr>]\<rparr>]\<rparr>"

section \<open>Lemmas on the queries\<close>

lemmas example_defs = example_module_def example_B0_def example_B1_def example_B2_def

lemma getTerminator_Inr_iff:
  "(getTerminator M b = Inr t) = (has_terminator M b \<and> t = last (InstList b))"
  by (auto simp: has_terminator_def isa_TermInst_def getTerminator_def
      split: option.splits InstKind.splits)

lemma vector_erase_take_drop: "vector_erase xs n = take n xs @ drop (Suc n) xs"
  by (induction xs n rule: vector_erase.induct) simp_all

lemma getSinglePredecessor_cases:
  "getSinglePredecessor M b =
     (if length (PredList b) = 1 then pred_deref M (PredList b) else Inr None)"
  by (cases "PredList b")
    (auto simp: getSinglePredecessor_def pred_empty_def pred_begin_def pred_end_def)

lemma getSingleSuccessor_cases:
  assumes "getSuccs M b = Inr succs"
  shows "getSingleSuccessor M b =
     Inr (if length succs = 1 then SuccessorBlock (hd succs) else None)"
  using assms
  by (cases succs)
    (auto simp: getSingleSuccessor_def succ_empty_def succ_begin_def succ_end_def bind_err_def)

section \<open>The terminator\<close>

text \<open>
  C5. On a block whose instruction list is not empty and ends in a terminator,
  \<open>getTerminator\<close> returns the last instruction of the list. On an empty block, and on
  a block whose last instruction is not a terminator, the call fails an assertion and
  returns nothing; a returned value implies the precondition, so under the precondition
  the failure branches are not reached.
\<close>

theorem getTerminator_last:
  "(has_terminator M b \<longrightarrow> getTerminator M b = Inr (last (InstList b))) \<and>
   (InstList b = [] \<or> isa_NonTerminator M (last (InstList b)) \<longrightarrow>
      getTerminator M b = Inl AssertionFailure) \<and>
   ((\<exists>t. getTerminator M b = Inr t) \<longrightarrow> has_terminator M b)"
  by (auto simp: has_terminator_def isa_TermInst_def isa_NonTerminator_def getTerminator_def
      split: option.splits InstKind.splits)

theorem getTerminator_last_witness:
  "has_terminator example_module example_B0 \<and>
   getTerminator example_module example_B0 = Inr 2 \<and>
   getTerminator example_module example_B2 = Inl AssertionFailure \<and>
   isa_NonTerminator example_module (last [0, 1]) \<and>
   getTerminator example_module (example_B0\<lparr>InstList := [0, 1]\<rparr>) = Inl AssertionFailure"
  using getTerminator_last [of example_module example_B0]
    getTerminator_last [of example_module example_B2]
    getTerminator_last [of example_module "example_B0\<lparr>InstList := [0, 1]\<rparr>"]
  by (simp add: example_defs has_terminator_def isa_TermInst_def isa_NonTerminator_def load_def)

section \<open>Successor queries\<close>

text \<open>
  C7. On a block whose last instruction is a terminator with successor array \<open>succs\<close>,
  \<open>getSuccs\<close> returns exactly \<open>succs\<close>, and \<open>succ_empty\<close> is true if and only if
  \<open>succs\<close> has no element.
\<close>

theorem getSuccs_terminator:
  assumes "InstList b \<noteq> []"
    and "load (Insts M) (last (InstList b)) = Some I"
    and "Kind I = TermInst succs"
  shows "getSuccs M b = Inr succs \<and> succ_empty M b = Inr (succs = [])"
  using assms
  by (simp add: succ_empty_def getSuccs_def getTerminator_def getSuccessors_def bind_err_def)

theorem getSuccs_terminator_witness:
  "InstList example_B1 \<noteq> [] \<and>
   load (Insts example_module) (last (InstList example_B1)) =
     Some \<lparr>ParentBB = Some 1,
            Kind = TermInst [\<lparr>SuccessorBlock = Some 2\<rparr>, \<lparr>SuccessorBlock = Some 2\<rparr>]\<rparr> \<and>
   getSuccs example_module example_B1 =
     Inr [\<lparr>SuccessorBlock = Some 2\<rparr>, \<lparr>SuccessorBlock = Some 2\<rparr>] \<and>
   succ_empty example_module example_B1 = Inr False"
  using getSuccs_terminator [of example_B1 example_module
      "\<lparr>ParentBB = Some 1,
         Kind = TermInst [\<lparr>SuccessorBlock = Some 2\<rparr>, \<lparr>SuccessorBlock = Some 2\<rparr>]\<rparr>"
      "[\<lparr>SuccessorBlock = Some 2\<rparr>, \<lparr>SuccessorBlock = Some 2\<rparr>]"]
  by (simp add: example_defs load_def)

section \<open>Single predecessor and single successor\<close>

text \<open>
  C4, as the code has it. \<open>getSinglePredecessor\<close> returns a non-null block if and only
  if the predecessor list holds exactly one edge and the terminator owning that edge is
  in a block; the result is then the block holding that terminator. With one edge whose
  terminator is in no block, and with no edge or two or more, it returns null. On a block
  with a terminator \<open>getSuccs\<close> returns the successor array, and
  \<open>getSingleSuccessor\<close> returns the target of the only edge if the array has exactly
  one element, and null otherwise.
\<close>

theorem getSingle_unique:
  "((\<exists>p. getSinglePredecessor M b = Inr (Some p)) =
      (\<exists>e. PredList b = [e] \<and> edge_attached M e)) \<and>
   (\<forall>e. PredList b = [e] \<longrightarrow> getSinglePredecessor M b = pred_deref M [e]) \<and>
   (\<forall>e. PredList b = [e] \<and> edge_live M e \<and> \<not> edge_attached M e \<longrightarrow>
      getSinglePredecessor M b = Inr None) \<and>
   (length (PredList b) \<noteq> 1 \<longrightarrow> getSinglePredecessor M b = Inr None) \<and>
   (has_terminator M b \<longrightarrow>
      (\<exists>succs. getSuccs M b = Inr succs \<and>
         getSingleSuccessor M b =
           Inr (if length succs = 1 then SuccessorBlock (hd succs) else None)))"
proof -
  have succ: "\<exists>succs. getSuccs M b = Inr succs \<and>
               getSingleSuccessor M b =
                 Inr (if length succs = 1 then SuccessorBlock (hd succs) else None)"
    if "has_terminator M b"
  proof -
    from that obtain succs where "getSuccs M b = Inr succs"
      by (auto simp: has_terminator_def isa_TermInst_def getSuccs_def getTerminator_def
          getSuccessors_def bind_err_def split: option.splits InstKind.splits)
    with getSingleSuccessor_cases [OF this] show ?thesis by blast
  qed
  have one: "getSinglePredecessor M b = pred_deref M [e]" if "PredList b = [e]" for e
    using that by (simp add: getSinglePredecessor_cases)
  have many: "getSinglePredecessor M b = Inr None" if "length (PredList b) \<noteq> 1"
    using that by (simp add: getSinglePredecessor_cases)
  have deref: "(\<exists>p. pred_deref M [e] = Inr (Some p)) = edge_attached M e" for e
    by (auto simp: pred_deref_def edge_attached_def split: option.splits)
  have null: "pred_deref M [e] = Inr None" if "edge_live M e" and "\<not> edge_attached M e" for e
    using that by (auto simp: pred_deref_def edge_attached_def edge_live_def load_def)
  have iff: "(\<exists>p. getSinglePredecessor M b = Inr (Some p)) =
      (\<exists>e. PredList b = [e] \<and> edge_attached M e)"
  proof (cases "length (PredList b) = 1")
    case True
    then obtain e where e: "PredList b = [e]"
      by (cases "PredList b") auto
    with one [OF e] deref [of e] show ?thesis by simp
  next
    case False
    with many show ?thesis by auto
  qed
  from iff one null many succ show ?thesis
    by (intro conjI allI impI) (auto simp del: One_nat_def)
qed

theorem getSingle_unique_witness:
  "PredList example_B1 = [(2, 0)] \<and>
   edge_attached example_module (2, 0) \<and>
   getSinglePredecessor example_module example_B1 = Inr (Some 0) \<and>
   getSinglePredecessor example_module example_B0 = Inr None \<and>
   getSinglePredecessor example_module example_B2 = Inr None \<and>
   edge_live example_detached (0, 0) \<and>
   \<not> edge_attached example_detached (0, 0) \<and>
   getSinglePredecessor example_detached (Blocks example_detached ! 1) = Inr None \<and>
   has_terminator example_module example_B0 \<and>
   getSuccs example_module example_B0 = Inr [\<lparr>SuccessorBlock = Some 1\<rparr>] \<and>
   getSingleSuccessor example_module example_B0 = Inr (Some 1) \<and>
   getSingleSuccessor example_module example_B1 = Inr None"
  using getSingle_unique [of example_module example_B1]
    getSingle_unique [of example_module example_B0]
    getSingle_unique [of example_detached "Blocks example_detached ! 1"]
  by (simp add: example_defs example_detached_def blank_block_def edge_attached_def
      edge_live_def load_def pred_deref_def has_terminator_def isa_TermInst_def
      getSinglePredecessor_cases getSingleSuccessor_def succ_empty_def succ_begin_def
      succ_end_def bind_err_def getSuccs_def getTerminator_def getSuccessors_def)

lemma example_detached_created:
  "createTermInst example_two_blocks [Some 1] = Inr (example_detached, 0)"
  by (simp add: createTermInst_def Let_def bind_err_def setTarget_def is_edge_def
      edge_target_def live_target_def load_def unlink_edge_def link_edge_def link_def
      store_target_def example_two_blocks_def example_detached_def blank_block_def)

text \<open>
  C4, as the claim states it, fails: a branch to block 1 that has been constructed and
  not yet inserted is the only edge of block 1's predecessor list, and
  \<open>getSinglePredecessor\<close> of block 1 is null.
\<close>

theorem getSingle_counterexample:
  "createTermInst example_two_blocks [Some 1] = Inr (example_detached, 0) \<and>
   length (PredList (Blocks example_detached ! 1)) = 1 \<and>
   getSinglePredecessor example_detached (Blocks example_detached ! 1) = Inr None"
  using example_detached_created
  by (simp add: example_detached_def blank_block_def getSinglePredecessor_cases
      pred_deref_def load_def)

text \<open>
  C9. The successor queries all go through \<open>getTerminator\<close>: on a block without a
  terminator each of them fails, with a failed assertion when the block is empty or ends
  in an ordinary instruction. The predecessor queries read \<open>PredList\<close> only: their
  results do not depend on the instruction list, and \<open>getSinglePredecessor\<close> returns a
  result whenever the edges of the list are live objects.
\<close>

theorem succ_pred_asymmetry:
  "(\<not> has_terminator M b \<longrightarrow>
      (\<exists>e. getSuccs M b = Inl e) \<and> (\<exists>e. succ_empty M b = Inl e) \<and>
      (\<exists>e. succ_begin M b = Inl e) \<and> (\<exists>e. getSingleSuccessor M b = Inl e)) \<and>
   (InstList b = [] \<or> isa_NonTerminator M (last (InstList b)) \<longrightarrow>
      getSuccs M b = Inl AssertionFailure \<and> succ_empty M b = Inl AssertionFailure \<and>
      succ_begin M b = Inl AssertionFailure \<and>
      getSingleSuccessor M b = Inl AssertionFailure) \<and>
   pred_empty (b\<lparr>InstList := is\<rparr>) = (PredList b = []) \<and>
   pred_begin (b\<lparr>InstList := is\<rparr>) = PredList b \<and>
   getPreds (b\<lparr>InstList := is\<rparr>) = (PredList b, []) \<and>
   getSinglePredecessor M (b\<lparr>InstList := is\<rparr>) = getSinglePredecessor M b \<and>
   (list_all (edge_live M) (PredList b) \<longrightarrow> (\<exists>r. getSinglePredecessor M b = Inr r))"
proof -
  have t: "\<exists>e. getTerminator M b = Inl e" if "\<not> has_terminator M b"
    using that getTerminator_Inr_iff [of M b] by (cases "getTerminator M b") auto
  have a: "getTerminator M b = Inl AssertionFailure"
    if "InstList b = [] \<or> isa_NonTerminator M (last (InstList b))"
    using that
    by (auto simp: getTerminator_def isa_NonTerminator_def split: option.splits InstKind.splits)
  have p: "\<exists>r. getSinglePredecessor M b = Inr r" if "list_all (edge_live M) (PredList b)"
  proof (cases "PredList b")
    case Nil
    then show ?thesis by (simp add: getSinglePredecessor_cases)
  next
    case (Cons e es)
    with that have "fst e < length (Insts M)" by (simp add: edge_live_def)
    with Cons show ?thesis
      by (simp add: getSinglePredecessor_cases pred_deref_def load_def)
  qed
  show ?thesis
    using t a p
    by (auto simp: getSuccs_def succ_empty_def succ_begin_def getSingleSuccessor_def
        bind_err_def pred_empty_def pred_begin_def pred_end_def getPreds_def
        getSinglePredecessor_def)
qed

theorem succ_pred_asymmetry_witness:
  "\<not> has_terminator example_module example_B2 \<and> InstList example_B2 = [] \<and>
   succ_empty example_module example_B2 = Inl AssertionFailure \<and>
   getSingleSuccessor example_module example_B2 = Inl AssertionFailure \<and>
   pred_empty example_B2 = False \<and>
   list_all (edge_live example_module) (PredList example_B2) \<and>
   getSinglePredecessor example_module example_B2 = Inr None \<and>
   getSinglePredecessor example_module (example_B1\<lparr>InstList := []\<rparr>) = Inr (Some 0) \<and>
   succ_empty example_module (example_B1\<lparr>InstList := []\<rparr>) = Inl AssertionFailure"
  using succ_pred_asymmetry [of example_module example_B2 "[]"]
    succ_pred_asymmetry [of example_module "example_B1\<lparr>InstList := []\<rparr>" "[]"]
  by (simp add: example_defs has_terminator_def edge_live_def pred_empty_def
      getSinglePredecessor_cases pred_deref_def load_def)

section \<open>Block arguments\<close>

text \<open>
  C6. Erasing the argument at an index \<open>i\<close> inside the argument list yields the
  arguments before \<open>i\<close> followed by the arguments after \<open>i\<close>: the count drops by one,
  an argument before \<open>i\<close> keeps its index and an argument after \<open>i\<close> moves to its old
  index minus one.
\<close>

theorem eraseArgument_shift:
  assumes "0 \<le> i" and "nat i < length (BBArgList b)"
  shows "\<exists>b'. eraseArgument b i = Inr b' \<and>
           BBArgList b' = take (nat i) (BBArgList b) @ drop (Suc (nat i)) (BBArgList b) \<and>
           length (BBArgList b') = length (BBArgList b) - 1 \<and>
           (\<forall>j. j < nat i \<longrightarrow> BBArgList b' ! j = BBArgList b ! j) \<and>
           (\<forall>j. nat i < j \<and> j < length (BBArgList b) \<longrightarrow>
              BBArgList b' ! (j - 1) = BBArgList b ! j)"
  using assms
  by (auto simp add: eraseArgument_def vector_erase_take_drop nth_append min_def)

theorem eraseArgument_shift_witness:
  "(0::int) \<le> 1 \<and> nat 1 < length (BBArgList example_B0) \<and>
   eraseArgument example_B0 1 = Inr (example_B0\<lparr>BBArgList := [10, 12]\<rparr>)"
  using eraseArgument_shift [of 1 example_B0]
  by (auto simp add: example_defs eraseArgument_def)

text \<open>
  C8, as the code has it. For an argument list whose length fits \<open>unsigned\<close>: with an
  index inside the argument list \<open>getBBArg\<close> and \<open>eraseArgument\<close> return a result.
  With an index outside it both are undefined behaviour: neither holds an assertion or
  any other check of the index.
\<close>

theorem arg_index_precondition:
  assumes "length (BBArgList b) < 2 ^ 32"
  shows "(i < getNumBBArg b \<longrightarrow> getBBArg b i = Inr (BBArgList b ! i)) \<and>
         (\<not> i < getNumBBArg b \<longrightarrow> getBBArg b i = Inl UndefinedBehavior) \<and>
         (0 \<le> idx \<and> nat idx < getNumBBArg b \<longrightarrow> (\<exists>b'. eraseArgument b idx = Inr b')) \<and>
         (\<not> (0 \<le> idx \<and> nat idx < getNumBBArg b) \<longrightarrow>
            eraseArgument b idx = Inl UndefinedBehavior)"
  using assms by (simp add: getNumBBArg_def getBBArg_def eraseArgument_def)

theorem arg_index_precondition_witness:
  "length (BBArgList example_B0) < 2 ^ 32 \<and>
   getNumBBArg example_B0 = 3 \<and>
   getBBArg example_B0 2 = Inr 12 \<and>
   getBBArg example_B0 3 = Inl UndefinedBehavior \<and>
   eraseArgument example_B0 0 = Inr (example_B0\<lparr>BBArgList := [11, 12]\<rparr>) \<and>
   eraseArgument example_B0 3 = Inl UndefinedBehavior"
  using arg_index_precondition [of example_B0 2 0] arg_index_precondition [of example_B0 3 3]
  by (simp add: example_defs getNumBBArg_def eraseArgument_def)

text \<open>
  C8, as the claim states it, fails: in the build with assertions, an index outside the
  argument list is not caught by an assertion. A block with three arguments, asked for
  argument 3 or to erase argument -1, runs into undefined behaviour.
\<close>

theorem arg_index_counterexample:
  "getNumBBArg example_B0 = 3 \<and>
   getBBArg example_B0 3 = Inl UndefinedBehavior \<and>
   getBBArg example_B0 3 \<noteq> Inl AssertionFailure \<and>
   eraseArgument example_B0 (- 1) = Inl UndefinedBehavior \<and>
   eraseArgument example_B0 (- 1) \<noteq> Inl AssertionFailure"
  by (simp add: example_defs getNumBBArg_def getBBArg_def eraseArgument_def)

text \<open>
  C10. \<open>addArgument\<close> appends its argument and leaves every earlier argument at its
  index; \<open>addArgument\<close>, \<open>dropAllArgs\<close> and \<open>eraseArgument\<close> leave the instruction
  list, the predecessor list and the owning function of the block as they were.
\<close>

theorem arg_ops_frame:
  "BBArgList (addArgument b a) = BBArgList b @ [a] \<and>
   (\<forall>j. j < length (BBArgList b) \<longrightarrow> BBArgList (addArgument b a) ! j = BBArgList b ! j) \<and>
   InstList (addArgument b a) = InstList b \<and>
   PredList (addArgument b a) = PredList b \<and>
   Parent (addArgument b a) = Parent b \<and>
   BBArgList (dropAllArgs b) = [] \<and>
   InstList (dropAllArgs b) = InstList b \<and>
   PredList (dropAllArgs b) = PredList b \<and>
   Parent (dropAllArgs b) = Parent b \<and>
   (\<forall>b'. eraseArgument b idx = Inr b' \<longrightarrow>
      InstList b' = InstList b \<and> PredList b' = PredList b \<and> Parent b' = Parent b)"
  by (auto simp: addArgument_def dropAllArgs_def eraseArgument_def nth_append split: if_splits)

theorem arg_ops_frame_witness:
  "addArgument example_B0 13 = example_B0\<lparr>BBArgList := [10, 11, 12, 13]\<rparr> \<and>
   dropAllArgs example_B0 = example_B0\<lparr>BBArgList := []\<rparr> \<and>
   eraseArgument example_B0 2 = Inr (example_B0\<lparr>BBArgList := [10, 11]\<rparr>) \<and>
   InstList (example_B0\<lparr>BBArgList := [10, 11]\<rparr>) = InstList example_B0"
  using arg_ops_frame [of example_B0 13 2]
  by (simp add: example_defs addArgument_def dropAllArgs_def eraseArgument_def
      vector_erase_take_drop)

section \<open>Splitting\<close>

lemma example_B0_well_formed: "well_formed example_module example_B0"
  by (simp add: example_defs well_formed_def has_terminator_def isa_TermInst_def
      isa_NonTerminator_def load_def)

lemmas upt_unfold = upt_rec [of 0] upt_rec [of 1] upt_rec [of 2] upt_rec [of 3]
  upt_rec [of 4] upt_rec [of 5] upt_rec [of "Suc n"] for n

lemma example_splitBasicBlock:
  "splitBasicBlock example_module 0 2 = Inr (example_split, 3)"
  by (simp add: splitBasicBlock_def load_def example_defs example_split_def Let_def
      transfer_def upt_unfold)

lemma insert_after_split:
  "x \<notin> set pre \<Longrightarrow> insert_after x y (pre @ x # post) = pre @ x # y # post"
  by (induction pre) auto

lemma transfer_length [simp]: "length (transfer moved New insts) = length insts"
  by (simp add: transfer_def)

lemma transfer_Kind:
  "i < length insts \<Longrightarrow> Kind (transfer moved New insts ! i) = Kind (insts ! i)"
  by (simp add: transfer_def)

lemma transfer_ParentBB:
  "i < length insts \<Longrightarrow>
   ParentBB (transfer moved New insts ! i) =
     (if i \<in> set moved then Some New else ParentBB (insts ! i))"
  by (simp add: transfer_def)

lemma same_kinds_isa:
  assumes "same_kinds M M'"
  shows "isa_TermInst M' = isa_TermInst M"
    and "isa_NonTerminator M' = isa_NonTerminator M"
  using assms
  by (auto simp: same_kinds_def isa_TermInst_def isa_NonTerminator_def load_def fun_eq_iff)

lemma list_all_take_butlast:
  assumes "list_all P (butlast xs)" and "n < length xs"
  shows "list_all P (take n xs)"
proof -
  from assms(2) have "take n xs = take n (butlast xs)"
    by (simp add: take_butlast)
  with assms(1) show ?thesis
    by (auto simp: list_all_iff dest: in_set_takeD)
qed

lemma NonTerminator_not_TermInst: "isa_NonTerminator M i \<Longrightarrow> \<not> isa_TermInst M i"
  by (auto simp: isa_NonTerminator_def isa_TermInst_def split: option.splits InstKind.splits)

lemma splitBasicBlock_result:
  assumes "load (Blocks M) this = Some B"
    and "I \<le> length (InstList B)"
    and "Parent B < length (Functions M)"
    and "this \<in> set (Functions M ! Parent B)"
  shows "splitBasicBlock M this I =
     Inr (M\<lparr>Functions :=
              (Functions M)[Parent B := insert_after this (length (Blocks M)) (Functions M ! Parent B)],
            Blocks := (Blocks M)[this := B\<lparr>InstList := take I (InstList B)\<rparr>] @
              [\<lparr>Parent = Parent B, PredList = [], BBArgList = [], InstList = drop I (InstList B)\<rparr>],
            Insts := transfer (drop I (InstList B)) (length (Blocks M)) (Insts M)\<rparr>,
          length (Blocks M))"
  using assms by (simp add: splitBasicBlock_def Let_def)

text \<open>
  C2. Splitting a well-formed block at one of its instructions succeeds. The new block
  stands immediately after the original in the function's block sequence; it holds the
  instructions from the position to the end, the terminator last, and they have the new
  block as parent; the original keeps the instructions before the position, none of them
  a terminator. The old sequence is the concatenation of the two, and the instruction
  arena holds the same objects as before: nothing is copied or created.
\<close>

theorem splitBasicBlock_splice:
  assumes B: "load (Blocks M) this = Some B"
    and wf: "well_formed M B"
    and I: "I < length (InstList B)"
    and F: "Parent B < length (Functions M)"
    and seq: "Functions M ! Parent B = pre @ this # post"
    and pre: "this \<notin> set pre"
  shows "\<exists>M'. splitBasicBlock M this I = Inr (M', length (Blocks M)) \<and>
           length (Blocks M') = Suc (length (Blocks M)) \<and>
           Functions M' ! Parent B = pre @ this # length (Blocks M) # post \<and>
           InstList (Blocks M' ! this) = take I (InstList B) \<and>
           InstList (Blocks M' ! length (Blocks M)) = drop I (InstList B) \<and>
           InstList B = InstList (Blocks M' ! this) @ InstList (Blocks M' ! length (Blocks M)) \<and>
           last (InstList (Blocks M' ! length (Blocks M))) = last (InstList B) \<and>
           has_terminator M' (Blocks M' ! length (Blocks M)) \<and>
           list_all (isa_NonTerminator M') (InstList (Blocks M' ! this)) \<and>
           \<not> has_terminator M' (Blocks M' ! this) \<and>
           same_kinds M M' \<and>
           list_all (\<lambda>i. ParentBB (Insts M' ! i) = Some (length (Blocks M)))
             (InstList (Blocks M' ! length (Blocks M)))"
proof -
  define New where "New = length (Blocks M)"
  define M' where "M' = M\<lparr>Functions :=
              (Functions M)[Parent B := insert_after this New (Functions M ! Parent B)],
            Blocks := (Blocks M)[this := B\<lparr>InstList := take I (InstList B)\<rparr>] @
              [\<lparr>Parent = Parent B, PredList = [], BBArgList = [], InstList = drop I (InstList B)\<rparr>],
            Insts := transfer (drop I (InstList B)) New (Insts M)\<rparr>"
  from B have tl: "this < length (Blocks M)" and Bdef: "B = Blocks M ! this"
    by (auto simp: load_def split: if_splits)
  from seq have mem: "this \<in> set (Functions M ! Parent B)" by simp
  from B I F mem have res: "splitBasicBlock M this I = Inr (M', New)"
    unfolding M'_def New_def by (simp add: splitBasicBlock_result)
  have len: "length (Blocks M') = Suc (length (Blocks M))"
    by (simp add: M'_def)
  have fn: "Functions M' ! Parent B = pre @ this # New # post"
    using F seq pre by (simp add: M'_def insert_after_split)
  have old: "InstList (Blocks M' ! this) = take I (InstList B)"
    using tl by (simp add: M'_def nth_append)
  have new: "InstList (Blocks M' ! New) = drop I (InstList B)"
    by (simp add: M'_def New_def nth_append)
  have sk: "same_kinds M M'"
    by (simp add: same_kinds_def M'_def transfer_Kind)
  from wf have ht: "has_terminator M B"
    and nt: "list_all (isa_NonTerminator M) (butlast (InstList B))"
    by (simp_all add: well_formed_def)
  from I have lastd: "last (drop I (InstList B)) = last (InstList B)" by simp
  from ht I have htn: "has_terminator M' (Blocks M' ! New)"
    by (simp add: has_terminator_def new lastd same_kinds_isa [OF sk])
  from nt I have keep: "list_all (isa_NonTerminator M') (InstList (Blocks M' ! this))"
    by (simp add: old same_kinds_isa [OF sk] list_all_take_butlast)
  have noterm: "\<not> has_terminator M' (Blocks M' ! this)"
  proof
    assume h: "has_terminator M' (Blocks M' ! this)"
    then have ne: "InstList (Blocks M' ! this) \<noteq> []"
      and t: "isa_TermInst M' (last (InstList (Blocks M' ! this)))"
      by (simp_all add: has_terminator_def)
    from ne have "last (InstList (Blocks M' ! this)) \<in> set (InstList (Blocks M' ! this))"
      by simp
    with keep have "isa_NonTerminator M' (last (InstList (Blocks M' ! this)))"
      by (simp add: list_all_iff)
    with t show False by (simp add: NonTerminator_not_TermInst)
  qed
  have live: "i < length (Insts M)" if "i \<in> set (InstList B)" for i
  proof (cases "i = last (InstList B)")
    case True
    with ht show ?thesis
      by (auto simp: has_terminator_def isa_TermInst_def load_def split: if_splits)
  next
    case False
    with that I have "i \<in> set (butlast (InstList B))"
      by (cases "InstList B" rule: rev_cases) auto
    with nt show ?thesis
      by (auto simp: list_all_iff isa_NonTerminator_def load_def split: if_splits)
  qed
  have par: "list_all (\<lambda>i. ParentBB (Insts M' ! i) = Some New) (InstList (Blocks M' ! New))"
    unfolding new list_all_iff
  proof
    fix i assume i: "i \<in> set (drop I (InstList B))"
    then have "i \<in> set (InstList B)" by (rule in_set_dropD)
    then have "i < length (Insts M)" by (rule live)
    with i show "ParentBB (Insts M' ! i) = Some New"
      by (simp add: M'_def transfer_ParentBB)
  qed
  show ?thesis
    using res len fn old new lastd htn keep noterm sk par
    unfolding New_def [symmetric] by (intro exI [of _ M']) simp
qed

theorem splitBasicBlock_splice_witness:
  "load (Blocks example_module) 0 = Some example_B0 \<and>
   well_formed example_module example_B0 \<and>
   (2::nat) < length (InstList example_B0) \<and>
   Functions example_module ! Parent example_B0 = [] @ 0 # [1, 2] \<and>
   splitBasicBlock example_module 0 2 = Inr (example_split, 3) \<and>
   Functions example_split ! 0 = [0, 3, 1, 2] \<and>
   InstList (Blocks example_split ! 0) = [0, 1] \<and>
   InstList (Blocks example_split ! 3) = [2] \<and>
   has_terminator example_split (Blocks example_split ! 3) \<and>
   \<not> has_terminator example_split (Blocks example_split ! 0)"
  using splitBasicBlock_splice [of example_module 0 example_B0 2 "[]" "[1, 2]"]
    example_B0_well_formed example_splitBasicBlock
  by (simp add: load_def example_defs example_split_def)

lemma createBranch_result:
  assumes "New < length (Blocks M)"
  shows "createTermInst M [Some New] =
     Inr (M\<lparr>Blocks := (Blocks M)[New := link (length (Insts M), 0) (Blocks M ! New)],
            Insts := Insts M @
              [\<lparr>ParentBB = None, Kind = TermInst [\<lparr>SuccessorBlock = Some New\<rparr>]\<rparr>]\<rparr>,
          length (Insts M))"
  using assms
  by (simp add: createTermInst_def Let_def bind_err_def setTarget_def is_edge_def load_def
      edge_target_def live_target_def unlink_edge_def link_edge_def store_target_def)

lemma splitBasicBlockAndBranch_result:
  assumes "load (Blocks M) this = Some B"
    and "I \<le> length (InstList B)"
    and "Parent B < length (Functions M)"
    and "this \<in> set (Functions M ! Parent B)"
  shows "splitBasicBlockAndBranch M this I =
     Inr (\<lparr>Functions =
              (Functions M)[Parent B := insert_after this (length (Blocks M)) (Functions M ! Parent B)],
            Blocks =
              (Blocks M)[this := B\<lparr>InstList := take I (InstList B) @ [length (Insts M)]\<rparr>] @
              [\<lparr>Parent = Parent B, PredList = [(length (Insts M), 0)], BBArgList = [],
                 InstList = drop I (InstList B)\<rparr>],
            Insts = transfer (drop I (InstList B)) (length (Blocks M)) (Insts M) @
              [\<lparr>ParentBB = Some this,
                 Kind = TermInst [\<lparr>SuccessorBlock = Some (length (Blocks M))\<rparr>]\<rparr>]\<rparr>,
          length (Blocks M))"
proof -
  from assms(1) have tl: "this < length (Blocks M)" and Bdef: "Blocks M ! this = B"
    by (auto simp: load_def split: if_splits)
  show ?thesis
    using tl Bdef
    by (simp add: splitBasicBlockAndBranch_def splitBasicBlock_result [OF assms] bind_err_def
        createBranch_result push_back_def load_def link_def nth_append list_update_append)
qed

lemma example_splitBasicBlockAndBranch:
  "splitBasicBlockAndBranch example_module 0 2 = Inr (example_split_branch, 3)"
proof -
  have "load (Blocks example_module) 0 = Some example_B0"
    by (simp add: load_def example_defs)
  from splitBasicBlockAndBranch_result [OF this, of 2]
  show ?thesis
    by (simp add: example_defs example_split_branch_def transfer_def upt_unfold)
qed

lemma well_formed_live:
  assumes "well_formed M B" and "i \<in> set (InstList B)"
  shows "i < length (Insts M)"
proof (cases "i = last (InstList B)")
  case True
  with assms(1) show ?thesis
    by (auto simp: well_formed_def has_terminator_def isa_TermInst_def load_def split: if_splits)
next
  case False
  with assms(2) have "i \<in> set (butlast (InstList B))"
    by (cases "InstList B" rule: rev_cases) auto
  with assms(1) show ?thesis
    by (auto simp: well_formed_def list_all_iff isa_NonTerminator_def load_def split: if_splits)
qed

lemma getSuccs_Inr:
  assumes "InstList b \<noteq> []"
    and "load (Insts M) (last (InstList b)) = Some I"
    and "Kind I = TermInst succs"
  shows "getSuccs M b = Inr succs"
  using assms
  by (simp add: getSuccs_def getTerminator_def getSuccessors_def bind_err_def)

text \<open>
  C3. \<open>splitBasicBlockAndBranch\<close> on a well-formed block at one of its instructions
  succeeds and splits as \<open>splitBasicBlock\<close> does, with one new branch appended to the
  original block. Afterwards the original block is well-formed, its only successor is the
  new block and the only predecessor of the new block is the original; the predecessor
  list of every block that existed before is unchanged, every edge keeps its target, and
  the successors of the new block are the successors the original block had.
\<close>

theorem splitBasicBlockAndBranch_cfg:
  assumes B: "load (Blocks M) this = Some B"
    and wf: "well_formed M B"
    and I: "I < length (InstList B)"
    and F: "Parent B < length (Functions M)"
    and mem: "this \<in> set (Functions M ! Parent B)"
  shows "\<exists>M1 M'. splitBasicBlock M this I = Inr (M1, length (Blocks M)) \<and>
           splitBasicBlockAndBranch M this I = Inr (M', length (Blocks M)) \<and>
           Functions M' = Functions M1 \<and>
           InstList (Blocks M' ! length (Blocks M)) = InstList (Blocks M1 ! length (Blocks M)) \<and>
           InstList (Blocks M' ! this) = InstList (Blocks M1 ! this) @ [length (Insts M)] \<and>
           well_formed M' (Blocks M' ! this) \<and>
           getSuccs M' (Blocks M' ! this) = Inr [\<lparr>SuccessorBlock = Some (length (Blocks M))\<rparr>] \<and>
           getSingleSuccessor M' (Blocks M' ! this) = Inr (Some (length (Blocks M))) \<and>
           PredList (Blocks M' ! length (Blocks M)) = [(length (Insts M), 0)] \<and>
           getSinglePredecessor M' (Blocks M' ! length (Blocks M)) = Inr (Some this) \<and>
           (\<forall>b. b < length (Blocks M) \<longrightarrow>
              PredList (Blocks M' ! b) = PredList (Blocks M ! b)) \<and>
           (\<forall>e. is_edge M e \<longrightarrow> is_edge M' e \<and> edge_target M' e = edge_target M e) \<and>
           getSuccs M' (Blocks M' ! length (Blocks M)) = getSuccs M B"
proof -
  define New where "New = length (Blocks M)"
  define br where "br = length (Insts M)"
  define moved where "moved = drop I (InstList B)"
  define Fs where
    "Fs = (Functions M)[Parent B := insert_after this New (Functions M ! Parent B)]"
  define M1 where "M1 = M\<lparr>Functions := Fs,
            Blocks := (Blocks M)[this := B\<lparr>InstList := take I (InstList B)\<rparr>] @
              [\<lparr>Parent = Parent B, PredList = [], BBArgList = [], InstList = moved\<rparr>],
            Insts := transfer moved New (Insts M)\<rparr>"
  define M' where "M' = \<lparr>Functions = Fs,
            Blocks = (Blocks M)[this := B\<lparr>InstList := take I (InstList B) @ [br]\<rparr>] @
              [\<lparr>Parent = Parent B, PredList = [(br, 0)], BBArgList = [], InstList = moved\<rparr>],
            Insts = transfer moved New (Insts M) @
              [\<lparr>ParentBB = Some this, Kind = TermInst [\<lparr>SuccessorBlock = Some New\<rparr>]\<rparr>]\<rparr>"
  from B have tl: "this < length (Blocks M)" and Bdef: "Blocks M ! this = B"
    by (auto simp: load_def split: if_splits)
  from I have I': "I \<le> length (InstList B)" by simp
  have r1: "splitBasicBlock M this I = Inr (M1, New)"
    unfolding M1_def New_def Fs_def moved_def
    by (rule splitBasicBlock_result [OF B I' F mem])
  have r2: "splitBasicBlockAndBranch M this I = Inr (M', New)"
    unfolding M'_def New_def Fs_def moved_def br_def
    by (rule splitBasicBlockAndBranch_result [OF B I' F mem])
  have fn: "Functions M' = Functions M1"
    by (simp add: M'_def M1_def)
  have bnew: "Blocks M' ! New =
      \<lparr>Parent = Parent B, PredList = [(br, 0)], BBArgList = [], InstList = moved\<rparr>"
    by (simp add: M'_def New_def nth_append)
  have bthis: "Blocks M' ! this = B\<lparr>InstList := take I (InstList B) @ [br]\<rparr>"
    using tl by (simp add: M'_def nth_append)
  have inew: "InstList (Blocks M' ! New) = InstList (Blocks M1 ! New)"
    unfolding bnew by (simp add: M1_def New_def nth_append)
  have ithis: "InstList (Blocks M' ! this) = InstList (Blocks M1 ! this) @ [br]"
    using tl by (simp add: bthis M1_def nth_append)
  have ibr: "Insts M' ! br =
      \<lparr>ParentBB = Some this, Kind = TermInst [\<lparr>SuccessorBlock = Some New\<rparr>]\<rparr>"
    and lbr: "br < length (Insts M')"
    by (simp_all add: M'_def br_def nth_append)
  have old_kind: "Kind (Insts M' ! i) = Kind (Insts M ! i)" if "i < length (Insts M)" for i
    using that by (simp add: M'_def nth_append transfer_Kind)
  have old_nt: "isa_NonTerminator M' i = isa_NonTerminator M i" if "i < length (Insts M)" for i
    using that old_kind [OF that]
    by (simp add: isa_NonTerminator_def load_def M'_def nth_append)
  from wf I have keep: "list_all (isa_NonTerminator M) (take I (InstList B))"
    by (simp add: well_formed_def list_all_take_butlast)
  have keep': "list_all (isa_NonTerminator M') (take I (InstList B))"
    unfolding list_all_iff
  proof
    fix i assume i: "i \<in> set (take I (InstList B))"
    then have "i \<in> set (InstList B)" by (rule in_set_takeD)
    with wf have "i < length (Insts M)" by (rule well_formed_live)
    with keep i show "isa_NonTerminator M' i"
      by (simp add: old_nt list_all_iff)
  qed
  have wfthis: "well_formed M' (Blocks M' ! this)"
    using keep' ibr lbr
    by (simp add: bthis well_formed_def has_terminator_def isa_TermInst_def load_def)
  have succs: "getSuccs M' (Blocks M' ! this) = Inr [\<lparr>SuccessorBlock = Some New\<rparr>]"
    using ibr lbr
    by (simp add: bthis getSuccs_def getTerminator_def getSuccessors_def bind_err_def load_def)
  have single_s: "getSingleSuccessor M' (Blocks M' ! this) = Inr (Some New)"
    by (simp add: getSingleSuccessor_cases [OF succs])
  have pl: "PredList (Blocks M' ! New) = [(br, 0)]"
    by (simp add: bnew)
  have single_p: "getSinglePredecessor M' (Blocks M' ! New) = Inr (Some this)"
    using ibr lbr by (simp add: getSinglePredecessor_cases pl pred_deref_def load_def)
  have preds: "PredList (Blocks M' ! b) = PredList (Blocks M ! b)" if "b < length (Blocks M)" for b
    using that Bdef by (cases "b = this") (auto simp: M'_def nth_append)
  have edges: "is_edge M' e \<and> edge_target M' e = edge_target M e" if "is_edge M e" for e
  proof -
    from that have "fst e < length (Insts M)"
      by (auto simp: is_edge_def load_def split: if_splits)
    with that old_kind [of "fst e"] show ?thesis
      by (simp add: is_edge_def edge_target_def load_def M'_def nth_append)
  qed
  from wf have ht: "has_terminator M B" by (simp add: well_formed_def)
  then have ne: "InstList B \<noteq> []" and ll: "last (InstList B) < length (Insts M)"
    by (auto simp: has_terminator_def isa_TermInst_def load_def split: if_splits)
  from I have lastd: "last moved = last (InstList B)" and mne: "moved \<noteq> []"
    by (simp_all add: moved_def)
  from ht obtain succs0 where k0: "Kind (Insts M ! last (InstList B)) = TermInst succs0"
    by (auto simp: has_terminator_def isa_TermInst_def load_def
        split: if_splits InstKind.splits)
  from ne ll k0 have s0: "getSuccs M B = Inr succs0"
    by (intro getSuccs_Inr [where I = "Insts M ! last (InstList B)"]) (simp_all add: load_def)
  have lnew: "load (Insts M') (last moved) = Some (Insts M' ! last (InstList B))"
    using ll by (simp add: load_def lastd M'_def)
  have "getSuccs M' (Blocks M' ! New) = Inr succs0"
    unfolding bnew
    by (rule getSuccs_Inr [where I = "Insts M' ! last (InstList B)"])
      (simp_all add: mne lnew old_kind [OF ll] k0)
  with s0 have snew: "getSuccs M' (Blocks M' ! New) = getSuccs M B"
    by simp
  show ?thesis
    using r1 r2 fn inew ithis wfthis succs single_s pl single_p preds edges snew
    unfolding New_def [symmetric] br_def [symmetric]
    by (intro exI [of _ M1] exI [of _ M']) simp
qed

theorem splitBasicBlockAndBranch_cfg_witness:
  "load (Blocks example_module) 0 = Some example_B0 \<and>
   well_formed example_module example_B0 \<and>
   (2::nat) < length (InstList example_B0) \<and>
   0 \<in> set (Functions example_module ! Parent example_B0) \<and>
   splitBasicBlockAndBranch example_module 0 2 = Inr (example_split_branch, 3) \<and>
   InstList (Blocks example_split_branch ! 0) = [0, 1, 4] \<and>
   InstList (Blocks example_split_branch ! 3) = [2] \<and>
   well_formed example_split_branch (Blocks example_split_branch ! 0) \<and>
   getSingleSuccessor example_split_branch (Blocks example_split_branch ! 0) = Inr (Some 3) \<and>
   getSinglePredecessor example_split_branch (Blocks example_split_branch ! 3) = Inr (Some 0) \<and>
   PredList (Blocks example_split_branch ! 1) = PredList (Blocks example_module ! 1)"
proof -
  have h1: "load (Blocks example_module) 0 = Some example_B0"
    by (simp add: load_def example_defs)
  have h3: "(2::nat) < length (InstList example_B0)"
    by (simp add: example_defs)
  have h4: "Parent example_B0 < length (Functions example_module)"
    by (simp add: example_defs)
  have h5: "0 \<in> set (Functions example_module ! Parent example_B0)"
    by (simp add: example_defs)
  have n: "length (Blocks example_module) = 3"
    by (simp add: example_defs)
  from splitBasicBlockAndBranch_cfg [OF h1 example_B0_well_formed h3 h4 h5]
  obtain M' where r: "splitBasicBlockAndBranch example_module 0 2 = Inr (M', 3)"
    and c: "well_formed M' (Blocks M' ! 0)"
      "getSingleSuccessor M' (Blocks M' ! 0) = Inr (Some 3)"
      "getSinglePredecessor M' (Blocks M' ! 3) = Inr (Some 0)"
      "\<forall>b. b < 3 \<longrightarrow> PredList (Blocks M' ! b) = PredList (Blocks example_module ! b)"
    unfolding n by blast
  from r have M': "M' = example_split_branch"
    by (simp add: example_splitBasicBlockAndBranch)
  from c(4) have "PredList (Blocks M' ! 1) = PredList (Blocks example_module ! 1)"
    by simp
  with h1 example_B0_well_formed h3 h5 r c(1-3) show ?thesis
    unfolding M' by (simp add: example_split_branch_def)
qed

section \<open>The edge registry is consistent in every reachable module\<close>

lemma nth_update_if: "j < length xs \<Longrightarrow> xs[i := x] ! j = (if i = j then x else xs ! j)"
  by (simp add: nth_list_update)

lemma setTarget_Inr:
  assumes "setTarget M e BB = Inr M'"
  shows "is_edge M e" and "live_target M (edge_target M e)" and "live_target M BB"
    and "M' = (link_edge (unlink_edge M e) e BB)
           \<lparr>Insts := (Insts M)[fst e := store_target (Insts M ! fst e) (snd e) BB]\<rparr>"
  using assms
  by (auto simp: setTarget_def Let_def unlink_edge_def link_edge_def
      split: if_splits option.splits)

lemma Blocks_link_unlink:
  "length (Blocks (link_edge (unlink_edge M e) e BB)) = length (Blocks M)"
  by (simp add: link_edge_def unlink_edge_def split: option.splits)

lemma PredList_link_unlink:
  assumes "b < length (Blocks M)"
  shows "PredList (Blocks (link_edge (unlink_edge M e) e BB) ! b) =
     (if BB = Some b then [e] else []) @
     (if edge_target M e = Some b then remove1 e (PredList (Blocks M ! b))
      else PredList (Blocks M ! b))"
  using assms
  by (auto simp: link_edge_def unlink_edge_def link_def unlink_def nth_update_if
      split: option.splits)

lemma rest_link_unlink:
  assumes "b < length (Blocks M)"
  shows "InstList (Blocks (link_edge (unlink_edge M e) e BB) ! b) = InstList (Blocks M ! b)"
    and "BBArgList (Blocks (link_edge (unlink_edge M e) e BB) ! b) = BBArgList (Blocks M ! b)"
    and "Parent (Blocks (link_edge (unlink_edge M e) e BB) ! b) = Parent (Blocks M ! b)"
  using assms
  by (auto simp: link_edge_def unlink_edge_def link_def unlink_def nth_update_if
      split: option.splits)

lemma setTarget_Blocks:
  assumes "setTarget M e BB = Inr M'"
  shows "length (Blocks M') = length (Blocks M)"
    and "b < length (Blocks M) \<Longrightarrow>
         PredList (Blocks M' ! b) =
           (if BB = Some b then [e] else []) @
           (if edge_target M e = Some b then remove1 e (PredList (Blocks M ! b))
            else PredList (Blocks M ! b))"
    and "b < length (Blocks M) \<Longrightarrow> InstList (Blocks M' ! b) = InstList (Blocks M ! b)"
    and "b < length (Blocks M) \<Longrightarrow> BBArgList (Blocks M' ! b) = BBArgList (Blocks M ! b)"
    and "b < length (Blocks M) \<Longrightarrow> Parent (Blocks M' ! b) = Parent (Blocks M ! b)"
proof -
  have "Blocks M' = Blocks (link_edge (unlink_edge M e) e BB)"
    using setTarget_Inr(4) [OF assms] by simp
  then show "length (Blocks M') = length (Blocks M)"
    and "b < length (Blocks M) \<Longrightarrow>
         PredList (Blocks M' ! b) =
           (if BB = Some b then [e] else []) @
           (if edge_target M e = Some b then remove1 e (PredList (Blocks M ! b))
            else PredList (Blocks M ! b))"
    and "b < length (Blocks M) \<Longrightarrow> InstList (Blocks M' ! b) = InstList (Blocks M ! b)"
    and "b < length (Blocks M) \<Longrightarrow> BBArgList (Blocks M' ! b) = BBArgList (Blocks M ! b)"
    and "b < length (Blocks M) \<Longrightarrow> Parent (Blocks M' ! b) = Parent (Blocks M ! b)"
    by (simp_all add: Blocks_link_unlink PredList_link_unlink rest_link_unlink)
qed

lemma setTarget_Functions:
  assumes "setTarget M e BB = Inr M'"
  shows "Functions M' = Functions M"
  using setTarget_Inr(4) [OF assms]
  by (simp add: link_edge_def unlink_edge_def split: option.splits)

lemma setTarget_Insts:
  assumes "setTarget M e BB = Inr M'"
  shows "Insts M' = (Insts M)[fst e := store_target (Insts M ! fst e) (snd e) BB]"
proof -
  have "Insts (link_edge (unlink_edge M e) e BB) = Insts M"
    by (simp add: link_edge_def unlink_edge_def split: option.splits)
  with setTarget_Inr(4) [OF assms] show ?thesis by simp
qed

lemma store_target_ParentBB [simp]: "ParentBB (store_target I k BB) = ParentBB I"
  by (simp add: store_target_def split: InstKind.splits)

lemma setTarget_ParentBB:
  assumes "setTarget M e BB = Inr M'"
  shows "length (Insts M') = length (Insts M)"
    and "i < length (Insts M) \<Longrightarrow> ParentBB (Insts M' ! i) = ParentBB (Insts M ! i)"
  by (simp_all add: setTarget_Insts [OF assms] nth_update_if)

lemma setTarget_edge_target:
  assumes "setTarget M e BB = Inr M'"
  shows "edge_target M' e' = (if e' = e then BB else edge_target M e')"
proof -
  from setTarget_Inr(1) [OF assms] obtain succs
    where I: "fst e < length (Insts M)" "Kind (Insts M ! fst e) = TermInst succs"
      "snd e < length succs"
    by (auto simp: is_edge_def load_def split: if_splits InstKind.splits)
  show ?thesis
  proof (cases "fst e' = fst e")
    case True
    with I show ?thesis
      by (cases e, cases e')
        (auto simp: setTarget_Insts [OF assms] edge_target_def load_def store_target_def
          nth_update_if)
  next
    case False
    then show ?thesis
      by (auto simp: setTarget_Insts [OF assms] edge_target_def load_def nth_update_if)
  qed
qed

lemma setTarget_is_edge:
  assumes "setTarget M e BB = Inr M'"
  shows "is_edge M' e' = is_edge M e'"
  by (auto simp: setTarget_Insts [OF assms] is_edge_def load_def store_target_def
      nth_update_if split: InstKind.splits)

lemma registry_okD:
  assumes "registry_ok M"
  shows "b < length (Blocks M) \<Longrightarrow> distinct (PredList (Blocks M ! b))"
    and "b < length (Blocks M) \<Longrightarrow>
         (x \<in> set (PredList (Blocks M ! b))) = (edge_target M x = Some b)"
    and "edge_target M x = Some b \<Longrightarrow> b < length (Blocks M)"
  using assms unfolding registry_ok_def by blast+

lemma setTarget_registry_ok:
  assumes ok: "registry_ok M" and st: "setTarget M e BB = Inr M'"
  shows "registry_ok M'"
proof -
  note T = setTarget_edge_target [OF st]
  note B = setTarget_Blocks [OF st]
  note D = registry_okD [OF ok]
  have "distinct (PredList (Blocks M' ! b)) \<and>
        (\<forall>x. (x \<in> set (PredList (Blocks M' ! b))) = (edge_target M' x = Some b))"
    if b: "b < length (Blocks M)" for b
    using D(1) [OF b] D(2) [OF b]
    by (auto simp: B(2) [OF b] T)
  moreover have "b < length (Blocks M')" if "edge_target M' x = Some b" for x b
    using that setTarget_Inr(3) [OF st] D(3)
    by (auto simp: T B(1) live_target_def split: if_splits)
  ultimately show ?thesis
    unfolding registry_ok_def B(1) by blast
qed

lemma bind_err_Inr:
  "(bind_err r f = Inr v) = (\<exists>x. r = Inr x \<and> f x = Inr v)"
  by (cases r) (simp_all add: bind_err_def)

lemma registry_ok_same:
  assumes "registry_ok M"
    and "edge_target M' = edge_target M"
    and "map PredList (Blocks M') = map PredList (Blocks M)"
  shows "registry_ok M'"
proof -
  from assms(3) have len: "length (Blocks M') = length (Blocks M)"
    by (rule map_eq_imp_length_eq)
  have "PredList (Blocks M' ! b) = PredList (Blocks M ! b)" if "b < length (Blocks M)" for b
    using that len nth_map [of b "Blocks M'" PredList] nth_map [of b "Blocks M" PredList]
    by (simp add: assms(3))
  with assms(1) show ?thesis
    by (simp add: registry_ok_def len assms(2))
qed

lemma registry_ok_new:
  assumes ok: "registry_ok M"
    and T: "edge_target M' = edge_target M"
    and P: "map PredList (Blocks M') = map PredList (Blocks M) @ [[]]"
  shows "registry_ok M'"
proof -
  note D = registry_okD [OF ok]
  from P have "length (map PredList (Blocks M')) = length (map PredList (Blocks M) @ [[]])"
    by simp
  then have len: "length (Blocks M') = Suc (length (Blocks M))"
    by simp
  have nth: "PredList (Blocks M' ! b) = (map PredList (Blocks M) @ [[]]) ! b"
    if "b < Suc (length (Blocks M))" for b
    using that len nth_map [of b "Blocks M'" PredList] by (simp add: P)
  have old: "PredList (Blocks M' ! b) = PredList (Blocks M ! b)" if "b < length (Blocks M)" for b
    using that nth [of b] by (simp add: nth_append)
  have new: "PredList (Blocks M' ! length (Blocks M)) = []"
    using nth [of "length (Blocks M)"] by (simp add: nth_append)
  have "distinct (PredList (Blocks M' ! b)) \<and>
        (\<forall>x. (x \<in> set (PredList (Blocks M' ! b))) = (edge_target M' x = Some b))"
    if b: "b < Suc (length (Blocks M))" for b
  proof (cases "b < length (Blocks M)")
    case True
    with D(1) [OF True] D(2) [OF True] show ?thesis
      by (simp add: old T)
  next
    case False
    with b have "b = length (Blocks M)" by simp
    with D(3) show ?thesis
      by (auto simp: new T)
  qed
  moreover have "b < Suc (length (Blocks M))" if "edge_target M' x = Some b" for x b
    using that D(3) [of x b] by (simp add: T)
  ultimately show ?thesis
    unfolding registry_ok_def len by blast
qed

lemma edge_target_same_kinds:
  assumes "same_kinds M M'"
  shows "edge_target M' = edge_target M"
  using assms by (auto simp: same_kinds_def edge_target_def load_def fun_eq_iff)

lemma edge_target_fresh_inst:
  "edge_target (M\<lparr>Insts := Insts M @ [\<lparr>ParentBB = p, Kind = NonTerminator\<rparr>]\<rparr>) =
     edge_target M"
  "edge_target (M\<lparr>Insts := Insts M @
       [\<lparr>ParentBB = p, Kind = TermInst (map (\<lambda>t. \<lparr>SuccessorBlock = None\<rparr>) ts)\<rparr>]\<rparr>) =
     edge_target M"
  by (auto simp: edge_target_def load_def fun_eq_iff nth_append)

lemma map_update_same: "(map f xs)[b := f (xs ! b)] = map f xs"
  by (simp add: map_update [symmetric])

lemma createBlock_registry_ok:
  assumes "registry_ok M" and "createBlock M F = Inr (M', b)"
  shows "registry_ok M'"
proof (rule registry_ok_new [OF assms(1)])
  from assms(2) have M': "M' = M\<lparr>Functions := (Functions M)[F := Functions M ! F @ [length (Blocks M)]],
      Blocks := Blocks M @ [\<lparr>Parent = F, PredList = [], BBArgList = [], InstList = []\<rparr>]\<rparr>"
    by (auto simp: createBlock_def split: if_splits)
  show "edge_target M' = edge_target M"
    by (simp add: M' edge_target_def fun_eq_iff)
  show "map PredList (Blocks M') = map PredList (Blocks M) @ [[]]"
    by (simp add: M')
qed

lemma push_back_Inr:
  assumes "push_back M b i = Inr M'"
  shows "b < length (Blocks M)" and "i < length (Insts M)" and "ParentBB (Insts M ! i) = None"
    and "M' = M\<lparr>Blocks := (Blocks M)[b := (Blocks M ! b)\<lparr>InstList := InstList (Blocks M ! b) @ [i]\<rparr>],
                 Insts := (Insts M)[i := (Insts M ! i)\<lparr>ParentBB := Some b\<rparr>]\<rparr>"
  using assms
  by (auto simp: push_back_def load_def split: if_splits option.splits)

lemma push_back_registry_ok:
  assumes "registry_ok M" and "push_back M b i = Inr M'"
  shows "registry_ok M'"
proof (rule registry_ok_same [OF assms(1)])
  note M' = push_back_Inr(4) [OF assms(2)]
  have "same_kinds M M'"
    by (simp add: same_kinds_def M' nth_update_if)
  then show "edge_target M' = edge_target M"
    by (rule edge_target_same_kinds)
  show "map PredList (Blocks M') = map PredList (Blocks M)"
    by (simp add: M' map_update map_update_same)
qed

lemma init_successors_registry_ok:
  assumes "registry_ok M" and "init_successors M i k ts = Inr M'"
  shows "registry_ok M'"
  using assms
proof (induction ts arbitrary: M k)
  case Nil
  then show ?case by simp
next
  case (Cons t ts)
  from Cons.prems(2) obtain M1 where "setTarget M (i, k) t = Inr M1"
    and "init_successors M1 i (Suc k) ts = Inr M'"
    by (auto simp: bind_err_Inr)
  with Cons.prems(1) Cons.IH show ?case
    by (blast intro: setTarget_registry_ok)
qed

lemma createTermInst_Inr:
  assumes "createTermInst M targets = Inr (M', i)"
  shows "i = length (Insts M)"
    and "init_successors
           (M\<lparr>Insts := Insts M @
              [\<lparr>ParentBB = None,
                 Kind = TermInst (map (\<lambda>t. \<lparr>SuccessorBlock = None\<rparr>) targets)\<rparr>]\<rparr>)
           (length (Insts M)) 0 targets = Inr M'"
  using assms by (auto simp: createTermInst_def Let_def bind_err_Inr)

lemma createTermInst_registry_ok:
  assumes "registry_ok M" and "createTermInst M targets = Inr (M', i)"
  shows "registry_ok M'"
proof -
  define M1 where "M1 = M\<lparr>Insts := Insts M @
              [\<lparr>ParentBB = None,
                 Kind = TermInst (map (\<lambda>t. \<lparr>SuccessorBlock = None\<rparr>) targets)\<rparr>]\<rparr>"
  have "edge_target M1 = edge_target M"
    unfolding M1_def by (rule edge_target_fresh_inst)
  with assms(1) have "registry_ok M1"
    by (rule registry_ok_same) (simp add: M1_def)
  with createTermInst_Inr(2) [OF assms(2)] show ?thesis
    unfolding M1_def [symmetric] by (blast intro: init_successors_registry_ok)
qed

lemma appendInst_registry_ok:
  assumes "registry_ok M" and "appendInst M b = Inr M'"
  shows "registry_ok M'"
proof -
  define M1 where "M1 = M\<lparr>Insts := Insts M @ [\<lparr>ParentBB = None, Kind = NonTerminator\<rparr>]\<rparr>"
  have "edge_target M1 = edge_target M"
    unfolding M1_def by (rule edge_target_fresh_inst)
  with assms(1) have "registry_ok M1"
    by (rule registry_ok_same) (simp add: M1_def)
  moreover from assms(2) have "push_back M1 b (length (Insts M)) = Inr M'"
    by (simp add: appendInst_def createInst_def M1_def)
  ultimately show ?thesis by (rule push_back_registry_ok)
qed

lemma appendTermInst_registry_ok:
  assumes "registry_ok M" and "appendTermInst M b targets = Inr M'"
  shows "registry_ok M'"
proof -
  from assms(2) obtain M1 i where "createTermInst M targets = Inr (M1, i)"
    and "push_back M1 b i = Inr M'"
    by (auto simp: appendTermInst_def bind_err_Inr)
  with assms(1) show ?thesis
    by (blast intro: createTermInst_registry_ok push_back_registry_ok)
qed

lemma splitBasicBlock_Inr:
  assumes "splitBasicBlock M this I = Inr (M', New)"
  shows "this < length (Blocks M)" and "New = length (Blocks M)"
    and "M' = M\<lparr>Functions :=
              (Functions M)[Parent (Blocks M ! this) :=
                 insert_after this (length (Blocks M)) (Functions M ! Parent (Blocks M ! this))],
            Blocks := (Blocks M)[this := (Blocks M ! this)
                \<lparr>InstList := take I (InstList (Blocks M ! this))\<rparr>] @
              [\<lparr>Parent = Parent (Blocks M ! this), PredList = [], BBArgList = [],
                 InstList = drop I (InstList (Blocks M ! this))\<rparr>],
            Insts := transfer (drop I (InstList (Blocks M ! this))) (length (Blocks M)) (Insts M)\<rparr>"
  using assms
  by (auto simp: splitBasicBlock_def load_def Let_def split: if_splits)

lemma splitBasicBlock_registry_ok:
  assumes "registry_ok M" and "splitBasicBlock M this I = Inr (M', New)"
  shows "registry_ok M'"
proof (rule registry_ok_new [OF assms(1)])
  note M' = splitBasicBlock_Inr(3) [OF assms(2)]
  have "same_kinds M M'"
    by (simp add: same_kinds_def M' transfer_Kind)
  then show "edge_target M' = edge_target M"
    by (rule edge_target_same_kinds)
  show "map PredList (Blocks M') = map PredList (Blocks M) @ [[]]"
    by (simp add: M' map_update map_update_same)
qed

lemma splitBasicBlockAndBranch_registry_ok:
  assumes "registry_ok M" and "splitBasicBlockAndBranch M this I = Inr (M', New)"
  shows "registry_ok M'"
proof -
  from assms(2) obtain M1 M2 br where "splitBasicBlock M this I = Inr (M1, New)"
    and "createTermInst M1 [Some New] = Inr (M2, br)"
    and "push_back M2 this br = Inr M'"
    by (auto simp: splitBasicBlockAndBranch_def bind_err_Inr)
  with assms(1) show ?thesis
    by (blast intro: splitBasicBlock_registry_ok createTermInst_registry_ok
        push_back_registry_ok)
qed

lemma update_block_registry_ok:
  assumes "registry_ok M" and "b < length (Blocks M)" and "PredList B' = PredList (Blocks M ! b)"
  shows "registry_ok (update_block M b B')"
proof (rule registry_ok_same [OF assms(1)])
  show "edge_target (update_block M b B') = edge_target M"
    by (simp add: update_block_def edge_target_def fun_eq_iff)
  show "map PredList (Blocks (update_block M b B')) = map PredList (Blocks M)"
    using assms(2,3)
    by (simp add: update_block_def map_update map_update_same)
qed

lemma empty_module_registry_ok: "registry_ok (empty_module n)"
  by (simp add: registry_ok_def empty_module_def edge_target_def load_def)

lemma reachable_registry_ok: "reachable M \<Longrightarrow> registry_ok M"
proof (induction rule: reachable.induct)
  case (r_empty n)
  show ?case by (rule empty_module_registry_ok)
next
  case (r_createBlock M F M' b)
  then show ?case by (blast intro: createBlock_registry_ok)
next
  case (r_appendInst M b M')
  then show ?case by (blast intro: appendInst_registry_ok)
next
  case (r_appendTermInst M b targets M')
  then show ?case by (blast intro: appendTermInst_registry_ok)
next
  case (r_setTarget M e BB M')
  then show ?case by (blast intro: setTarget_registry_ok)
next
  case (r_split M b I M' New)
  then show ?case by (blast intro: splitBasicBlock_registry_ok)
next
  case (r_splitAndBranch M b I M' New)
  then show ?case by (blast intro: splitBasicBlockAndBranch_registry_ok)
next
  case (r_addArgument M b Arg)
  then show ?case
    by (intro update_block_registry_ok) (simp_all add: addArgument_def)
next
  case (r_eraseArgument M b idx B')
  then show ?case
    by (intro update_block_registry_ok) (auto simp: eraseArgument_def split: if_splits)
next
  case (r_dropAllArgs M b)
  then show ?case
    by (intro update_block_registry_ok) (simp_all add: dropAllArgs_def)
qed

lemma push_back_attached:
  assumes "attached_except M i" and "push_back M b i = Inr M'"
  shows "all_attached M'"
  using assms(1)
  by (auto simp: all_attached_def attached_except_def push_back_Inr(4) [OF assms(2)]
      nth_update_if)

lemma init_successors_ParentBB:
  assumes "init_successors M i k ts = Inr M'"
  shows "length (Insts M') = length (Insts M) \<and>
         (\<forall>j. j < length (Insts M) \<longrightarrow> ParentBB (Insts M' ! j) = ParentBB (Insts M ! j))"
  using assms
proof (induction ts arbitrary: M k)
  case Nil
  then show ?case by simp
next
  case (Cons t ts)
  from Cons.prems obtain M1 where st: "setTarget M (i, k) t = Inr M1"
    and rest: "init_successors M1 i (Suc k) ts = Inr M'"
    by (auto simp: bind_err_Inr)
  from Cons.IH [OF rest] setTarget_ParentBB [OF st] show ?case
    by simp
qed

lemma createTermInst_attached:
  assumes "all_attached M" and "createTermInst M targets = Inr (M', i)"
  shows "attached_except M' i"
proof -
  note i = createTermInst_Inr(1) [OF assms(2)]
  from init_successors_ParentBB [OF createTermInst_Inr(2) [OF assms(2)]]
  have len: "length (Insts M') = Suc (length (Insts M))"
    and par: "\<And>j. j < length (Insts M) \<Longrightarrow> ParentBB (Insts M' ! j) = ParentBB (Insts M ! j)"
    by (simp_all add: nth_append)
  with assms(1) show ?thesis
    by (auto simp: attached_except_def all_attached_def i less_Suc_eq)
qed

lemma appendInst_attached:
  assumes "all_attached M" and "appendInst M b = Inr M'"
  shows "all_attached M'"
proof -
  define M1 where "M1 = M\<lparr>Insts := Insts M @ [\<lparr>ParentBB = None, Kind = NonTerminator\<rparr>]\<rparr>"
  from assms(1) have "attached_except M1 (length (Insts M))"
    by (auto simp: attached_except_def all_attached_def M1_def nth_append less_Suc_eq)
  moreover from assms(2) have "push_back M1 b (length (Insts M)) = Inr M'"
    by (simp add: appendInst_def createInst_def M1_def)
  ultimately show ?thesis by (rule push_back_attached)
qed

lemma appendTermInst_attached:
  assumes "all_attached M" and "appendTermInst M b targets = Inr M'"
  shows "all_attached M'"
proof -
  from assms(2) obtain M1 i where "createTermInst M targets = Inr (M1, i)"
    and "push_back M1 b i = Inr M'"
    by (auto simp: appendTermInst_def bind_err_Inr)
  with assms(1) show ?thesis
    by (blast intro: createTermInst_attached push_back_attached)
qed

lemma splitBasicBlock_attached:
  assumes "all_attached M" and "splitBasicBlock M this I = Inr (M', New)"
  shows "all_attached M'"
  using assms(1)
  by (simp add: all_attached_def splitBasicBlock_Inr(3) [OF assms(2)] transfer_ParentBB)

lemma splitBasicBlockAndBranch_attached:
  assumes "all_attached M" and "splitBasicBlockAndBranch M this I = Inr (M', New)"
  shows "all_attached M'"
proof -
  from assms(2) obtain M1 M2 br where "splitBasicBlock M this I = Inr (M1, New)"
    and "createTermInst M1 [Some New] = Inr (M2, br)"
    and "push_back M2 this br = Inr M'"
    by (auto simp: splitBasicBlockAndBranch_def bind_err_Inr)
  with assms(1) show ?thesis
    by (blast intro: splitBasicBlock_attached createTermInst_attached push_back_attached)
qed

lemma reachable_all_attached: "reachable M \<Longrightarrow> all_attached M"
proof (induction rule: reachable.induct)
  case (r_empty n)
  show ?case by (simp add: all_attached_def empty_module_def)
next
  case (r_createBlock M F M' b)
  then show ?case
    by (auto simp: all_attached_def createBlock_def split: if_splits)
next
  case (r_appendInst M b M')
  then show ?case by (blast intro: appendInst_attached)
next
  case (r_appendTermInst M b targets M')
  then show ?case by (blast intro: appendTermInst_attached)
next
  case (r_setTarget M e BB M')
  then show ?case
    by (simp add: all_attached_def setTarget_ParentBB)
next
  case (r_split M b I M' New)
  then show ?case by (blast intro: splitBasicBlock_attached)
next
  case (r_splitAndBranch M b I M' New)
  then show ?case by (blast intro: splitBasicBlockAndBranch_attached)
next
  case (r_addArgument M b Arg)
  then show ?case by (simp add: all_attached_def update_block_def)
next
  case (r_eraseArgument M b idx B')
  then show ?case by (simp add: all_attached_def update_block_def)
next
  case (r_dropAllArgs M b)
  then show ?case by (simp add: all_attached_def update_block_def)
qed

lemma edge_target_live:
  assumes "edge_target M e = Some b"
  shows "is_edge M e" and "edge_live M e"
  using assms
  by (auto simp: edge_target_def is_edge_def edge_live_def load_def
      split: if_splits InstKind.splits)

text \<open>
  The operations of \<open>reachable\<close> insert every terminator in the step that constructs
  it, so in a reachable module the edges of every predecessor list are live and belong to
  terminators that are in a block.
\<close>

lemma reachable_preds_attached:
  assumes "reachable M" and "b < length (Blocks M)"
  shows "list_all (edge_attached M) (PredList (Blocks M ! b))"
    and "list_all (edge_live M) (PredList (Blocks M ! b))"
proof -
  note D = registry_okD [OF reachable_registry_ok [OF assms(1)]]
  from reachable_all_attached [OF assms(1)]
  have att: "ParentBB (Insts M ! i) \<noteq> None" if "i < length (Insts M)" for i
    using that by (simp add: all_attached_def)
  have live: "edge_live M e" if "e \<in> set (PredList (Blocks M ! b))" for e
    using that D(2) [OF assms(2)] by (blast intro: edge_target_live)
  then show "list_all (edge_live M) (PredList (Blocks M ! b))"
    by (simp add: list_all_iff)
  show "list_all (edge_attached M) (PredList (Blocks M ! b))"
    unfolding list_all_iff
  proof
    fix e assume "e \<in> set (PredList (Blocks M ! b))"
    then have "fst e < length (Insts M)"
      using live by (simp add: edge_live_def)
    then show "edge_attached M e"
      using att by (simp add: edge_attached_def load_def)
  qed
qed

lemma example_cfg_reachable: "reachable example_cfg"
proof -
  have r0: "reachable (empty_module 1)"
    by (rule r_empty)
  have "createBlock (empty_module 1) 0 =
      Inr (\<lparr>Functions = [[0]], Blocks = [blank_block], Insts = []\<rparr>, 0)"
    by (simp add: createBlock_def empty_module_def blank_block_def)
  with r0 have r1: "reachable \<lparr>Functions = [[0]], Blocks = [blank_block], Insts = []\<rparr>"
    by (rule r_createBlock)
  have "createBlock \<lparr>Functions = [[0]], Blocks = [blank_block], Insts = []\<rparr> 0 =
      Inr (\<lparr>Functions = [[0, 1]], Blocks = [blank_block, blank_block], Insts = []\<rparr>, 1)"
    by (simp add: createBlock_def blank_block_def)
  with r1 have r2:
    "reachable \<lparr>Functions = [[0, 1]], Blocks = [blank_block, blank_block], Insts = []\<rparr>"
    by (rule r_createBlock)
  have "createBlock \<lparr>Functions = [[0, 1]], Blocks = [blank_block, blank_block], Insts = []\<rparr> 0 =
      Inr (\<lparr>Functions = [[0, 1, 2]], Blocks = [blank_block, blank_block, blank_block],
             Insts = []\<rparr>, 2)"
    by (simp add: createBlock_def blank_block_def)
  with r2 have r3:
    "reachable \<lparr>Functions = [[0, 1, 2]], Blocks = [blank_block, blank_block, blank_block],
       Insts = []\<rparr>"
    by (rule r_createBlock)
  have "appendTermInst
      \<lparr>Functions = [[0, 1, 2]], Blocks = [blank_block, blank_block, blank_block], Insts = []\<rparr>
      0 [Some 1] = Inr example_cfg"
    by (simp add: appendTermInst_def createTermInst_def Let_def bind_err_def setTarget_def
        is_edge_def edge_target_def live_target_def load_def unlink_edge_def link_edge_def
        link_def store_target_def push_back_def example_cfg_def blank_block_def)
  with r3 show ?thesis
    by (rule r_appendTermInst)
qed

lemma example_cfg_setTarget:
  "setTarget example_cfg (0, 0) (Some 2) = Inr example_cfg_retargeted"
  by (simp add: setTarget_def Let_def is_edge_def edge_target_def live_target_def load_def
      unlink_edge_def link_edge_def link_def unlink_def store_target_def example_cfg_def
      example_cfg_retargeted_def blank_block_def)

text \<open>
  C1. In every reachable module, an edge is in the predecessor traversal of a block if and
  only if it is a successor slot of a terminator with that block as target. Retargeting
  an edge to a block is one step, \<open>setTarget\<close>; it succeeds on every edge and live
  block, and in the module it returns the edge has the new target, is in the new target's
  predecessor list and is in the predecessor list of no other block.
\<close>

theorem pred_succ_duality:
  assumes "reachable M"
  shows "(\<forall>B E. B < length (Blocks M) \<longrightarrow>
            (E \<in> set (pred_begin (Blocks M ! B))) = (edge_target M E = Some B)) \<and>
         (\<forall>E Bn. is_edge M E \<and> Bn < length (Blocks M) \<longrightarrow>
            (\<exists>M'. setTarget M E (Some Bn) = Inr M' \<and> reachable M' \<and>
                   edge_target M' E = Some Bn \<and>
                   E \<in> set (pred_begin (Blocks M' ! Bn)) \<and>
                   (\<forall>B. B < length (Blocks M') \<and> B \<noteq> Bn \<longrightarrow>
                      E \<notin> set (pred_begin (Blocks M' ! B)))))"
proof -
  note D = registry_okD [OF reachable_registry_ok [OF assms]]
  have dual: "(E \<in> set (pred_begin (Blocks M ! B))) = (edge_target M E = Some B)"
    if "B < length (Blocks M)" for B E
    using D(2) [OF that] by (simp add: pred_begin_def)
  have retarget: "\<exists>M'. setTarget M E (Some Bn) = Inr M' \<and> reachable M' \<and>
                   edge_target M' E = Some Bn \<and>
                   E \<in> set (pred_begin (Blocks M' ! Bn)) \<and>
                   (\<forall>B. B < length (Blocks M') \<and> B \<noteq> Bn \<longrightarrow>
                      E \<notin> set (pred_begin (Blocks M' ! B)))"
    if E: "is_edge M E" and Bn: "Bn < length (Blocks M)" for E Bn
  proof -
    have "live_target M (edge_target M E)"
      using D(3) [of E] by (cases "edge_target M E") (simp_all add: live_target_def)
    with E Bn obtain M' where st: "setTarget M E (Some Bn) = Inr M'"
      by (simp add: setTarget_def Let_def live_target_def)
    from assms st have r: "reachable M'"
      by (rule r_setTarget)
    have T: "edge_target M' E = Some Bn"
      by (simp add: setTarget_edge_target [OF st])
    note D' = registry_okD [OF reachable_registry_ok [OF r]]
    have len: "length (Blocks M') = length (Blocks M)"
      by (rule setTarget_Blocks(1) [OF st])
    from Bn len have "E \<in> set (pred_begin (Blocks M' ! Bn))"
      by (simp add: pred_begin_def D'(2) T)
    moreover have "E \<notin> set (pred_begin (Blocks M' ! B))"
      if "B < length (Blocks M')" and "B \<noteq> Bn" for B
      using that by (simp add: pred_begin_def D'(2) T)
    ultimately show ?thesis
      using st r T by blast
  qed
  from dual retarget show ?thesis by blast
qed

theorem pred_succ_duality_witness:
  "reachable example_cfg \<and>
   is_edge example_cfg (0, 0) \<and>
   edge_target example_cfg (0, 0) = Some 1 \<and>
   (0, 0) \<in> set (pred_begin (Blocks example_cfg ! 1)) \<and>
   (0, 0) \<notin> set (pred_begin (Blocks example_cfg ! 2)) \<and>
   setTarget example_cfg (0, 0) (Some 2) = Inr example_cfg_retargeted \<and>
   edge_target example_cfg_retargeted (0, 0) = Some 2 \<and>
   (0, 0) \<in> set (pred_begin (Blocks example_cfg_retargeted ! 2)) \<and>
   (0, 0) \<notin> set (pred_begin (Blocks example_cfg_retargeted ! 1))"
proof -
  have e: "is_edge example_cfg (0, 0)" and b: "(2::nat) < length (Blocks example_cfg)"
    and b1: "(1::nat) < length (Blocks example_cfg)"
    and t: "edge_target example_cfg (0, 0) = Some 1"
    by (simp_all add: is_edge_def edge_target_def load_def example_cfg_def)
  note dual = pred_succ_duality [OF example_cfg_reachable]
  from dual b1 t have in1: "(0, 0) \<in> set (pred_begin (Blocks example_cfg ! 1))"
    by blast
  from dual b t have out2: "(0, 0) \<notin> set (pred_begin (Blocks example_cfg ! 2))"
    by auto
  from dual e b obtain M' where st: "setTarget example_cfg (0, 0) (Some 2) = Inr M'"
    and T: "edge_target M' (0, 0) = Some 2"
    and in2: "(0, 0) \<in> set (pred_begin (Blocks M' ! 2))"
    and out: "\<forall>B. B < length (Blocks M') \<and> B \<noteq> 2 \<longrightarrow> (0, 0) \<notin> set (pred_begin (Blocks M' ! B))"
    by blast
  from st have M': "M' = example_cfg_retargeted"
    by (simp add: example_cfg_setTarget)
  have "(1::nat) < length (Blocks example_cfg_retargeted)"
    by (simp add: example_cfg_retargeted_def)
  with out have out1: "(0, 0) \<notin> set (pred_begin (Blocks example_cfg_retargeted ! 1))"
    unfolding M' by auto
  from example_cfg_reachable e t in1 out2 st T in2 out1 show ?thesis
    unfolding M' by simp
qed

end
